theory Spec2Isabelle
  imports Complex_Main
begin

section \<open>The session control loop of \<open>src/App.jsx\<close>\<close>

text \<open>
  The component \<open>App\<close> keeps its state in React state cells (\<open>useState\<close>) and in
  refs (\<open>useRef\<close>), and changes it only in callbacks: the four button handlers, the
  callback of the 100 ms interval, and the four handlers installed on the WebSocket.
  Each callback is modelled as a function from the state to the state; the browser's side
  (the sockets that exist and their \<open>readyState\<close>, what was sent, the running
  intervals) is part of the same record.

  Modelling decisions, all of them about what the source leaves to React and the browser:
  \<^item> an inbound message is taken at the types of the wire format: each of the six fields
    is absent (\<open>None\<close>) or present with a value of its type; JavaScript truthiness is
    written out per type (\<open>true\<close>, a non-empty string, a non-zero number, any array);
  \<^item> strings are lists of 8-bit characters (UTF-8), and \<open>toLowerCaseJS\<close> maps the
    letters \<open>A\<close> to \<open>Z\<close> only;
  \<^item> the conversion of a number to text inside the template \<open>`${d}m`\<close> is the parameter
    \<open>num\<close> of \<open>onmessage\<close>;
  \<^item> a state change made by a handler is rendered, and the effects that depend on the
    changed cells are run, before the next event is handled;
  \<^item> a socket delivers a message only while its \<open>readyState\<close> is \<open>OPEN\<close>, and
    \<open>close()\<close> moves a connecting or open socket to \<open>CLOSING\<close> at once;
  \<^item> the session is followed from its mount on; the unmount, which ends it, is not an
    event;
  \<^item> the frame-rate effect (lines 23 to 35) reads the wall clock and is left out: it
    writes only \<open>fps\<close>, \<open>frameCountRef\<close> and \<open>lastFrameTimeRef\<close>.
\<close>

subsection \<open>Data\<close>

datatype ready_state = CONNECTING | OPEN | CLOSING | CLOSED

record face =
  distance :: "real option"

record in_msg =
  success :: "bool option"
  processed_image :: "string option"
  focal_length :: "real option"
  faces :: "face list option"
  message :: "string option"
  error :: "string option"

record out_msg =
  command :: "string option"
  image_data :: "string option"

text \<open>
  A socket made by \<open>new WebSocket(...)\<close> in the effect of lines 48 to 100. Its
  \<open>onmessage\<close> closure reads the \<open>isMeasuring\<close> of the render that ran the effect;
  \<open>seen_isMeasuring\<close> is that value.
\<close>

record websocket =
  readyState :: ready_state
  seen_isMeasuring :: bool

record app =
  showCamera :: bool
  currentDistance :: string
  focalLength :: real
  processedImage :: "string option"
  connectionStatus :: string
  isCalibrating :: bool
  isCalibrated :: bool
  statusMessage :: string
  isMeasuring :: bool
  ws :: "nat option"
  detectionInterval :: "nat option"
  frameCountRef :: nat
  sockets :: "websocket list"
  sent :: "(nat \<times> out_msg) list"
  intervals :: "nat list"
  interval_seq :: nat

text \<open>
  \<open>ws\<close> is the index in \<open>sockets\<close> of the socket the ref \<open>ws.current\<close> points to;
  \<open>sent\<close> logs every \<open>send\<close> with the socket it went to; \<open>intervals\<close> are the ids of
  the intervals started by \<open>setInterval\<close> and not cleared; \<open>interval_seq\<close> is the last
  id handed out (ids are positive).
\<close>

datatype phase = Idle | Calibrating | Calibrated | Measuring

text \<open>
  The phase is not a variable of the source: it is read off the three flags the way the
  buttons are rendered (lines 216 to 238).
\<close>

definition phase :: "app \<Rightarrow> phase" where
  "phase s =
     (if isMeasuring s then Measuring
      else if isCalibrated s then Calibrated
      else if isCalibrating s then Calibrating
      else Idle)"

subsection \<open>Strings\<close>

definition toLowerCaseJS :: "string \<Rightarrow> string" where
  "toLowerCaseJS t =
     map (\<lambda>c. case map_of (zip ''ABCDEFGHIJKLMNOPQRSTUVWXYZ'' ''abcdefghijklmnopqrstuvwxyz'') c of
                 Some l \<Rightarrow> l
               | None \<Rightarrow> c) t"

fun startsWith :: "string \<Rightarrow> string \<Rightarrow> bool" where
  "startsWith t [] = True"
| "startsWith [] (p # ps) = False"
| "startsWith (c # cs) (p # ps) = (c = p \<and> startsWith cs ps)"

fun includesJS :: "string \<Rightarrow> string \<Rightarrow> bool" where
  "includesJS [] p = (p = [])"
| "includesJS (c # cs) p = (startsWith (c # cs) p \<or> includesJS cs p)"

definition calibration_done :: string where
  "calibration_done =
     [CHR 0xE2, CHR 0x9C, CHR 0x85] @ '' Calibration complete! You can now measure distance.''"

definition calibration_prompt :: string where
  "calibration_prompt =
     [CHR 0xF0, CHR 0x9F, CHR 0xA7, CHR 0x8D]
       @ '' Stand at one-arm distance and click '' @ [CHR 0x27] @ ''Capture'' @ [CHR 0x27]"

definition measuring_prompt :: string where
  "measuring_prompt = [CHR 0xF0, CHR 0x9F, CHR 0x93, CHR 0x8F] @ '' Measuring distance...''"

subsection \<open>The browser's side\<close>

definition ws_open :: "app \<Rightarrow> bool" where
  "ws_open s =
     (case ws s of
        None \<Rightarrow> False
      | Some i \<Rightarrow> i < length (sockets s) \<and> readyState (sockets s ! i) = OPEN)"

definition ws_send :: "out_msg \<Rightarrow> app \<Rightarrow> app" where
  "ws_send m s = (case ws s of None \<Rightarrow> s | Some i \<Rightarrow> s\<lparr>sent := sent s @ [(i, m)]\<rparr>)"

definition set_readyState :: "nat \<Rightarrow> ready_state \<Rightarrow> app \<Rightarrow> app" where
  "set_readyState i r s =
     (if i < length (sockets s)
      then s\<lparr>sockets := (sockets s)[i := (sockets s ! i)\<lparr>readyState := r\<rparr>]\<rparr>
      else s)"

definition ws_close :: "nat \<Rightarrow> app \<Rightarrow> app" where
  "ws_close i s =
     (if i < length (sockets s) \<and> readyState (sockets s ! i) \<in> {CONNECTING, OPEN}
      then set_readyState i CLOSING s
      else s)"

definition setInterval :: "app \<Rightarrow> nat \<times> app" where
  "setInterval s =
     (let t = Suc (interval_seq s)
      in (t, s\<lparr>intervals := intervals s @ [t], interval_seq := t\<rparr>))"

definition clearInterval :: "nat \<Rightarrow> app \<Rightarrow> app" where
  "clearInterval t s = s\<lparr>intervals := removeAll t (intervals s)\<rparr>"

subsection \<open>The callbacks\<close>

text \<open>Lines 37 to 46. \<open>shot\<close> is what \<open>getScreenshot()\<close> returns at this call.\<close>

definition sendFrame :: "string option \<Rightarrow> app \<Rightarrow> app" where
  "sendFrame shot s =
     (if \<not> showCamera s \<or> ws s = None \<or> \<not> ws_open s then s
      else (case shot of
              None \<Rightarrow> s
            | Some imageSrc \<Rightarrow>
                if imageSrc = [] then s
                else (ws_send \<lparr>command = None, image_data = Some imageSrc\<rparr> s)
                       \<lparr>frameCountRef := frameCountRef s + 1\<rparr>))"

text \<open>Lines 59 to 90.\<close>

definition onmessage :: "(real \<Rightarrow> string) \<Rightarrow> bool \<Rightarrow> in_msg \<Rightarrow> app \<Rightarrow> app" where
  "onmessage num isMeasuring_seen data s0 =
     (let s1 =
        (if success data = Some True then
           (let a = (case processed_image data of
                       None \<Rightarrow> s0
                     | Some img \<Rightarrow> if img = [] then s0 else s0\<lparr>processedImage := Some img\<rparr>);
                b = (case focal_length data of
                       None \<Rightarrow> a
                     | Some f \<Rightarrow> if f = 0 then a else a\<lparr>focalLength := f\<rparr>);
                c = (case message data of
                       None \<Rightarrow> b
                     | Some t \<Rightarrow>
                         if includesJS (toLowerCaseJS t) ''calibration complete''
                         then b\<lparr>isCalibrating := False, isCalibrated := True,
                                statusMessage := calibration_done\<rparr>
                         else b);
                d = (case faces data of
                       None \<Rightarrow> c
                     | Some [] \<Rightarrow> c
                     | Some (f # fs) \<Rightarrow>
                         if isMeasuring_seen
                         then c\<lparr>currentDistance :=
                                  (case distance f of
                                     None \<Rightarrow> ''Calculating...''
                                   | Some x \<Rightarrow> if x > 0 then num x @ ''m'' else ''Calculating...'')\<rparr>
                         else c)
            in d)
         else s0);
          s2 = (case message data of
                  None \<Rightarrow> s1
                | Some t \<Rightarrow> if t = [] then s1 else s1\<lparr>statusMessage := t\<rparr>);
          s3 = (case error data of
                  None \<Rightarrow> s2
                | Some e \<Rightarrow> if e = [] then s2 else s2\<lparr>statusMessage := ''Error: '' @ e\<rparr>)
      in s3)"

text \<open>Lines 102 to 110.\<close>

definition startCalibration :: "app \<Rightarrow> app" where
  "startCalibration s =
     (if ws_open s
      then (ws_send \<lparr>command = Some ''start_calibration'', image_data = None\<rparr> s)
             \<lparr>isCalibrating := True, isCalibrated := False, showCamera := True,
              statusMessage := calibration_prompt\<rparr>
      else s)"

text \<open>
  Lines 112 to 121. \<open>webcamRef.current\<close> is set while the \<open>Webcam\<close> element is
  rendered, which is while \<open>showCamera\<close> holds (line 174).
\<close>

definition captureCalibration :: "string option \<Rightarrow> app \<Rightarrow> app" where
  "captureCalibration shot s =
     (case (if showCamera s then shot else None) of
        None \<Rightarrow> s
      | Some imageSrc \<Rightarrow>
          if imageSrc \<noteq> [] \<and> ws_open s
          then ws_send \<lparr>command = Some ''capture'', image_data = Some imageSrc\<rparr> s
          else s)"

text \<open>Lines 123 to 132.\<close>

definition startMeasuringDistance :: "app \<Rightarrow> app" where
  "startMeasuringDistance s =
     (if ws_open s
      then (let s1 = ws_send \<lparr>command = Some ''start_distance'', image_data = None\<rparr> s;
                s2 = s1\<lparr>isMeasuring := True\<rparr>;
                (t, s3) = setInterval s2
            in s3\<lparr>detectionInterval := Some t, statusMessage := measuring_prompt\<rparr>)
      else s)"

text \<open>Lines 134 to 147.\<close>

definition stopMeasuringDistance :: "app \<Rightarrow> app" where
  "stopMeasuringDistance s =
     (let s1 = (if ws_open s
                then ws_send \<lparr>command = Some ''stop_all'', image_data = None\<rparr> s
                else s);
          s2 = (case detectionInterval s1 of
                  None \<Rightarrow> s1
                | Some t \<Rightarrow>
                    if t = 0 then s1
                    else (clearInterval t s1)\<lparr>detectionInterval := None\<rparr>)
      in s2\<lparr>isMeasuring := False, currentDistance := ''0m'',
            statusMessage := ''Measurement stopped'', processedImage := None\<rparr>)"

subsection \<open>The WebSocket effect\<close>

text \<open>
  Lines 48 to 100: the effect has the dependency list \<open>[isMeasuring]\<close>. It runs after the
  first render and again after every render in which \<open>isMeasuring\<close> differs from the
  render before; each rerun first runs the cleanup returned by the previous run.
\<close>

definition ws_cleanup :: "app \<Rightarrow> app" where
  "ws_cleanup s = (case ws s of None \<Rightarrow> s | Some i \<Rightarrow> ws_close i s)"

definition ws_effect :: "app \<Rightarrow> app" where
  "ws_effect s =
     s\<lparr>sockets := sockets s @ [\<lparr>readyState = CONNECTING, seen_isMeasuring = isMeasuring s\<rparr>],
       ws := Some (length (sockets s))\<rparr>"

definition rerender :: "app \<Rightarrow> app \<Rightarrow> app" where
  "rerender prev s =
     (if isMeasuring s = isMeasuring prev then s else ws_effect (ws_cleanup s))"

definition initial :: app where
  "initial =
     \<lparr>showCamera = False, currentDistance = ''0m'', focalLength = 0, processedImage = None,
      connectionStatus = ''disconnected'', isCalibrating = False, isCalibrated = False,
      statusMessage = [], isMeasuring = False, ws = None, detectionInterval = None,
      frameCountRef = 0, sockets = [], sent = [], intervals = [], interval_seq = 0\<rparr>"

definition mount :: app where
  "mount = ws_effect initial"

subsection \<open>Events\<close>

text \<open>
  What can happen to a mounted session: a click on one of the four buttons (a button that
  is not rendered cannot be clicked, lines 216 to 238), a tick of a running interval, and
  an event of a socket. \<open>WsOpen\<close>, \<open>WsMessage\<close>, \<open>WsClose\<close> and \<open>WsError\<close> name
  the socket; a message is delivered only by a socket that is open, and an error event
  leaves the \<open>readyState\<close> to the close event that follows it. The snapshot that
  \<open>getScreenshot()\<close> would return comes with the click or the tick.
\<close>

datatype event =
    ClickCalibrate
  | ClickCapture "string option"
  | ClickMeasure
  | ClickStop
  | IntervalTick nat "string option"
  | WsOpen nat
  | WsMessage nat in_msg
  | WsClose nat
  | WsError nat

fun dispatch :: "(real \<Rightarrow> string) \<Rightarrow> event \<Rightarrow> app \<Rightarrow> app" where
  "dispatch num ClickCalibrate s =
     (if \<not> isCalibrated s \<and> \<not> isCalibrating s then startCalibration s else s)"
| "dispatch num (ClickCapture shot) s =
     (if isCalibrating s then captureCalibration shot s else s)"
| "dispatch num ClickMeasure s =
     (if isCalibrated s \<and> \<not> isMeasuring s then startMeasuringDistance s else s)"
| "dispatch num ClickStop s =
     (if isMeasuring s then stopMeasuringDistance s else s)"
| "dispatch num (IntervalTick t shot) s =
     (if t \<in> set (intervals s) then sendFrame shot s else s)"
| "dispatch num (WsOpen i) s =
     (if i < length (sockets s) \<and> readyState (sockets s ! i) = CONNECTING
      then (set_readyState i OPEN s)\<lparr>connectionStatus := ''connected''\<rparr>
      else s)"
| "dispatch num (WsMessage i data) s =
     (if i < length (sockets s) \<and> readyState (sockets s ! i) = OPEN
      then onmessage num (seen_isMeasuring (sockets s ! i)) data s
      else s)"
| "dispatch num (WsClose i) s =
     (if i < length (sockets s) \<and> readyState (sockets s ! i) \<noteq> CLOSED
      then (set_readyState i CLOSED s)\<lparr>connectionStatus := ''disconnected''\<rparr>
      else s)"
| "dispatch num (WsError i) s =
     (if i < length (sockets s) \<and> readyState (sockets s ! i) \<noteq> CLOSED
      then s\<lparr>connectionStatus := ''error''\<rparr>
      else s)"

definition step :: "(real \<Rightarrow> string) \<Rightarrow> event \<Rightarrow> app \<Rightarrow> app" where
  "step num e s = rerender s (dispatch num e s)"

fun run :: "(real \<Rightarrow> string) \<Rightarrow> event list \<Rightarrow> app \<Rightarrow> app" where
  "run num [] s = s"
| "run num (e # es) s = run num es (step num e s)"

subsection \<open>Notions used in the statements and proofs\<close>

text \<open>
  What every state reached from the mount satisfies: \<open>ws.current\<close> is the socket opened
  last, every older socket is closing or closed, the handlers of the current socket have
  seen the current \<open>isMeasuring\<close>, measuring implies calibrated, calibrated excludes
  calibrating, the camera is shown while calibrating, and exactly one interval runs while
  \<open>isMeasuring\<close> holds and none otherwise.
\<close>

definition session_inv :: "app \<Rightarrow> bool" where
  "session_inv s \<longleftrightarrow>
     sockets s \<noteq> [] \<and> ws s = Some (length (sockets s) - 1) \<and>
     (\<forall>i \<in> {..<length (sockets s) - 1}. readyState (sockets s ! i) \<in> {CLOSING, CLOSED}) \<and>
     seen_isMeasuring (last (sockets s)) = isMeasuring s \<and>
     (isMeasuring s \<longrightarrow> isCalibrated s) \<and>
     (isCalibrated s \<longrightarrow> \<not> isCalibrating s) \<and>
     (isCalibrating s \<longrightarrow> showCamera s) \<and>
     (isMeasuring s \<longrightarrow> detectionInterval s = Some (interval_seq s) \<and> 0 < interval_seq s
                          \<and> intervals s = [interval_seq s]) \<and>
     (\<not> isMeasuring s \<longrightarrow> detectionInterval s = None \<and> intervals s = [])"

text \<open>
  The six conditional statements of \<open>onmessage\<close>, one function each, in the order of the
  source; \<open>onmessage\<close> is their composition (lemma \<open>onmessage_stages\<close>).
\<close>

definition set_image :: "in_msg \<Rightarrow> app \<Rightarrow> app" where
  "set_image data s =
     (case processed_image data of
        None \<Rightarrow> s
      | Some img \<Rightarrow> if img = [] then s else s\<lparr>processedImage := Some img\<rparr>)"

definition set_focal :: "in_msg \<Rightarrow> app \<Rightarrow> app" where
  "set_focal data s =
     (case focal_length data of
        None \<Rightarrow> s
      | Some f \<Rightarrow> if f = 0 then s else s\<lparr>focalLength := f\<rparr>)"

definition set_calibrated :: "in_msg \<Rightarrow> app \<Rightarrow> app" where
  "set_calibrated data s =
     (case message data of
        None \<Rightarrow> s
      | Some t \<Rightarrow>
          if includesJS (toLowerCaseJS t) ''calibration complete''
          then s\<lparr>isCalibrating := False, isCalibrated := True,
                 statusMessage := calibration_done\<rparr>
          else s)"

definition shown_distance :: "(real \<Rightarrow> string) \<Rightarrow> face \<Rightarrow> string" where
  "shown_distance num f =
     (case distance f of
        None \<Rightarrow> ''Calculating...''
      | Some x \<Rightarrow> if x > 0 then num x @ ''m'' else ''Calculating...'')"

definition set_distance :: "(real \<Rightarrow> string) \<Rightarrow> bool \<Rightarrow> in_msg \<Rightarrow> app \<Rightarrow> app" where
  "set_distance num seen data s =
     (case faces data of
        None \<Rightarrow> s
      | Some [] \<Rightarrow> s
      | Some (f # fs) \<Rightarrow>
          if seen then s\<lparr>currentDistance := shown_distance num f\<rparr> else s)"

definition set_status :: "in_msg \<Rightarrow> app \<Rightarrow> app" where
  "set_status data s =
     (case message data of
        None \<Rightarrow> s
      | Some t \<Rightarrow> if t = [] then s else s\<lparr>statusMessage := t\<rparr>)"

definition set_error :: "in_msg \<Rightarrow> app \<Rightarrow> app" where
  "set_error data s =
     (case error data of
        None \<Rightarrow> s
      | Some e \<Rightarrow> if e = [] then s else s\<lparr>statusMessage := ''Error: '' @ e\<rparr>)"

text \<open>The value each of these statements leaves in the cell it writes.\<close>

definition new_image :: "in_msg \<Rightarrow> string option \<Rightarrow> string option" where
  "new_image data old =
     (case processed_image data of
        None \<Rightarrow> old
      | Some img \<Rightarrow> if img = [] then old else Some img)"

definition new_focal :: "in_msg \<Rightarrow> real \<Rightarrow> real" where
  "new_focal data old =
     (case focal_length data of
        None \<Rightarrow> old
      | Some f \<Rightarrow> if f = 0 then old else f)"

definition marked :: "in_msg \<Rightarrow> bool" where
  "marked data =
     (case message data of
        None \<Rightarrow> False
      | Some t \<Rightarrow> includesJS (toLowerCaseJS t) ''calibration complete'')"

definition new_distance :: "(real \<Rightarrow> string) \<Rightarrow> bool \<Rightarrow> in_msg \<Rightarrow> string \<Rightarrow> string" where
  "new_distance num seen data old =
     (case faces data of
        None \<Rightarrow> old
      | Some [] \<Rightarrow> old
      | Some (f # fs) \<Rightarrow> if seen then shown_distance num f else old)"

definition new_status :: "in_msg \<Rightarrow> string \<Rightarrow> string" where
  "new_status data old =
     (case message data of
        None \<Rightarrow> old
      | Some t \<Rightarrow> if t = [] then old else t)"

definition new_error :: "in_msg \<Rightarrow> string \<Rightarrow> string" where
  "new_error data old =
     (case error data of
        None \<Rightarrow> old
      | Some e \<Rightarrow> if e = [] then old else ''Error: '' @ e)"

text \<open>
  \<open>flips\<close> counts the events of a run at which \<open>isMeasuring\<close> changes; \<open>frames\<close> are
  the sent messages without a \<open>command\<close> key, \<open>captures\<close> those with the command
  \<open>capture\<close>.
\<close>

fun flips :: "(real \<Rightarrow> string) \<Rightarrow> event list \<Rightarrow> app \<Rightarrow> nat" where
  "flips num [] s = 0"
| "flips num (e # es) s =
     (if isMeasuring (step num e s) = isMeasuring s then 0 else 1) + flips num es (step num e s)"

definition frames :: "app \<Rightarrow> (nat \<times> out_msg) list" where
  "frames s = filter (\<lambda>(i, m). command m = None) (sent s)"

definition captures :: "app \<Rightarrow> (nat \<times> out_msg) list" where
  "captures s = filter (\<lambda>(i, m). command m = Some ''capture'') (sent s)"

text \<open>
  Concrete inputs for the examples: a number printer that always answers \<open>1.2\<close>, replies
  of the service, and the events that lead from the mount into phase Measuring.
\<close>

definition fixed_num :: "real \<Rightarrow> string" where
  "fixed_num x = ''1.2''"

definition calibration_reply :: in_msg where
  "calibration_reply =
     \<lparr>success = Some True, processed_image = None, focal_length = Some 450.2, faces = None,
      message = Some ''Calibration complete'', error = None\<rparr>"

definition to_measuring :: "event list" where
  "to_measuring = [WsOpen 0, ClickCalibrate, WsMessage 0 calibration_reply, ClickMeasure]"

definition frame_result :: in_msg where
  "frame_result =
     \<lparr>success = Some True, processed_image = Some ''data:image/jpeg;base64,AA=='',
      focal_length = None, faces = Some [\<lparr>distance = Some 1.2\<rparr>], message = None,
      error = None\<rparr>"

definition zero_result :: in_msg where
  "zero_result =
     \<lparr>success = Some True, processed_image = None, focal_length = None,
      faces = Some [\<lparr>distance = Some 0\<rparr>], message = None, error = None\<rparr>"

definition no_face_result :: in_msg where
  "no_face_result =
     \<lparr>success = Some True, processed_image = None, focal_length = None, faces = Some [],
      message = None, error = None\<rparr>"

definition unflagged_zero_result :: in_msg where
  "unflagged_zero_result =
     \<lparr>success = None, processed_image = None, focal_length = None,
      faces = Some [\<lparr>distance = Some 0\<rparr>], message = None, error = None\<rparr>"

definition rejected_reply :: in_msg where
  "rejected_reply =
     \<lparr>success = Some False, processed_image = Some ''data:image/jpeg;base64,AA=='',
      focal_length = Some 450.2, faces = Some [\<lparr>distance = Some 1.2\<rparr>],
      message = Some ''Calibration complete'', error = None\<rparr>"

definition unconfirmed_reply :: in_msg where
  "unconfirmed_reply =
     \<lparr>success = None, processed_image = None, focal_length = Some 450.2, faces = None,
      message = Some ''Calibration complete'', error = None\<rparr>"

definition failed_reply :: in_msg where
  "failed_reply =
     \<lparr>success = Some True, processed_image = None, focal_length = None, faces = None,
      message = Some ''Calibration complete'', error = Some ''low light''\<rparr>"

definition error_reply :: in_msg where
  "error_reply =
     \<lparr>success = Some False, processed_image = None, focal_length = None, faces = None,
      message = None, error = Some ''low light''\<rparr>"

section \<open>Properties\<close>

subsection \<open>What \<open>onmessage\<close> writes\<close>

lemmas cb_defs = startCalibration_def captureCalibration_def startMeasuringDistance_def
  stopMeasuringDistance_def sendFrame_def onmessage_def ws_open_def ws_send_def set_readyState_def
  ws_close_def setInterval_def clearInterval_def ws_cleanup_def ws_effect_def rerender_def step_def

lemma onmessage_stages:
  "onmessage num seen data s =
     set_error data (set_status data
       (if success data = Some True
        then set_distance num seen data (set_calibrated data (set_focal data (set_image data s)))
        else s))"
  unfolding onmessage_def Let_def set_image_def set_focal_def set_calibrated_def
    set_distance_def shown_distance_def set_status_def set_error_def
  by (rule refl)

lemma set_image_eq: "set_image data s = s\<lparr>processedImage := new_image data (processedImage s)\<rparr>"
  by (simp add: set_image_def new_image_def split: option.splits)

lemma set_focal_eq: "set_focal data s = s\<lparr>focalLength := new_focal data (focalLength s)\<rparr>"
  by (simp add: set_focal_def new_focal_def split: option.splits)

lemma set_calibrated_eq:
  "set_calibrated data s =
     s\<lparr>isCalibrating := isCalibrating s \<and> \<not> marked data,
       isCalibrated := isCalibrated s \<or> marked data,
       statusMessage := (if marked data then calibration_done else statusMessage s)\<rparr>"
  by (simp add: set_calibrated_def marked_def split: option.splits)

lemma set_distance_eq:
  "set_distance num seen data s =
     s\<lparr>currentDistance := new_distance num seen data (currentDistance s)\<rparr>"
  by (simp add: set_distance_def new_distance_def split: option.splits list.splits)

lemma set_status_eq: "set_status data s = s\<lparr>statusMessage := new_status data (statusMessage s)\<rparr>"
  by (simp add: set_status_def new_status_def split: option.splits)

lemma set_error_eq: "set_error data s = s\<lparr>statusMessage := new_error data (statusMessage s)\<rparr>"
  by (simp add: set_error_def new_error_def split: option.splits)

lemmas stage_eqs = onmessage_stages set_image_eq set_focal_eq set_calibrated_eq set_distance_eq
  set_status_eq set_error_eq

lemma onmessage_frame [simp]:
  "sockets (onmessage num b m s) = sockets s"
  "ws (onmessage num b m s) = ws s"
  "isMeasuring (onmessage num b m s) = isMeasuring s"
  "intervals (onmessage num b m s) = intervals s"
  "interval_seq (onmessage num b m s) = interval_seq s"
  "detectionInterval (onmessage num b m s) = detectionInterval s"
  "showCamera (onmessage num b m s) = showCamera s"
  "sent (onmessage num b m s) = sent s"
  "connectionStatus (onmessage num b m s) = connectionStatus s"
  "frameCountRef (onmessage num b m s) = frameCountRef s"
  by (simp_all add: stage_eqs)

lemma onmessage_flags:
  "isCalibrated (onmessage num b m s) = (isCalibrated s \<or> success m = Some True \<and> marked m)"
  "isCalibrating (onmessage num b m s) = (isCalibrating s \<and> \<not> (success m = Some True \<and> marked m))"
  by (simp_all add: stage_eqs)

lemma onmessage_processedImage:
  "processedImage (onmessage num b m s) =
     (if success m = Some True then new_image m (processedImage s) else processedImage s)"
  by (simp add: stage_eqs)

lemma onmessage_focalLength:
  "focalLength (onmessage num b m s) =
     (if success m = Some True then new_focal m (focalLength s) else focalLength s)"
  by (simp add: stage_eqs)

lemma onmessage_currentDistance:
  "currentDistance (onmessage num b m s) =
     (if success m = Some True then new_distance num b m (currentDistance s)
      else currentDistance s)"
  by (simp add: stage_eqs)

lemma marked_message: "marked m \<Longrightarrow> \<exists>t. message m = Some t \<and> t \<noteq> []"
  by (auto simp: marked_def toLowerCaseJS_def split: option.splits)

lemma marked_status: "marked m \<Longrightarrow> new_status m old = the (message m) \<and> the (message m) \<noteq> []"
  using marked_message [of m] by (auto simp: new_status_def)

lemma onmessage_statusMessage:
  "statusMessage (onmessage num b m s) = new_error m (new_status m (statusMessage s))"
  using marked_status [of m]
  by (simp add: stage_eqs)

lemma onmessage_unsuccessful:
  "success m \<noteq> Some True \<Longrightarrow>
   onmessage num b m s = s\<lparr>statusMessage := new_error m (new_status m (statusMessage s))\<rparr>"
  by (simp add: stage_eqs)

lemma new_distance_unseen: "new_distance num False data old = old"
  by (simp add: new_distance_def split: option.splits list.splits)

subsection \<open>What holds in every reachable state\<close>

lemma session_inv_alt:
  "session_inv s \<longleftrightarrow>
     sockets s \<noteq> [] \<and> ws s = Some (length (sockets s) - 1) \<and>
     (\<forall>i < length (sockets s) - 1. readyState (sockets s ! i) \<in> {CLOSING, CLOSED}) \<and>
     seen_isMeasuring (last (sockets s)) = isMeasuring s \<and>
     (isMeasuring s \<longrightarrow> isCalibrated s) \<and>
     (isCalibrated s \<longrightarrow> \<not> isCalibrating s) \<and>
     (isCalibrating s \<longrightarrow> showCamera s) \<and>
     (isMeasuring s \<longrightarrow> detectionInterval s = Some (interval_seq s) \<and> 0 < interval_seq s
                          \<and> intervals s = [interval_seq s]) \<and>
     (\<not> isMeasuring s \<longrightarrow> detectionInterval s = None \<and> intervals s = [])"
  unfolding session_inv_def Ball_def lessThan_iff ..

lemma inv_mount: "session_inv mount"
  by (simp add: session_inv_alt mount_def initial_def ws_effect_def)

lemma inv_message: "session_inv s \<Longrightarrow> session_inv (step num (WsMessage i m) s)"
  by (auto simp: session_inv_alt step_def rerender_def onmessage_flags)

lemma inv_calibrate: "session_inv s \<Longrightarrow> session_inv (step num ClickCalibrate s)"
  by (auto simp: session_inv_alt step_def rerender_def startCalibration_def ws_send_def
           split: option.splits)

lemma inv_capture: "session_inv s \<Longrightarrow> session_inv (step num (ClickCapture x) s)"
  by (auto simp: session_inv_alt step_def rerender_def captureCalibration_def ws_send_def
           split: option.splits)

lemma inv_tick: "session_inv s \<Longrightarrow> session_inv (step num (IntervalTick t x) s)"
  by (auto simp: session_inv_alt step_def rerender_def sendFrame_def ws_send_def
           split: option.splits)

lemma inv_error: "session_inv s \<Longrightarrow> session_inv (step num (WsError i) s)"
  by (auto simp: session_inv_alt step_def rerender_def)

lemma inv_open: "session_inv s \<Longrightarrow> session_inv (step num (WsOpen i) s)"
  by (auto simp: session_inv_alt step_def rerender_def set_readyState_def nth_list_update
           last_conv_nth)

lemma inv_close: "session_inv s \<Longrightarrow> session_inv (step num (WsClose i) s)"
  by (auto simp: session_inv_alt step_def rerender_def set_readyState_def nth_list_update
           last_conv_nth)

lemma inv_measure:
  assumes "session_inv s"
  shows "session_inv (step num ClickMeasure s)"
proof (cases "isCalibrated s \<and> \<not> isMeasuring s \<and> ws_open s")
  case False
  then show ?thesis using assms
    by (auto simp: step_def rerender_def startMeasuringDistance_def)
next
  case True
  from assms obtain ys y where xs: "sockets s = ys @ [y]"
    by (cases "sockets s" rule: rev_cases) (auto simp: session_inv_alt)
  from assms xs have cur: "ws s = Some (length ys)"
    by (simp add: session_inv_alt)
  from assms xs have old: "\<forall>i<length ys. readyState (ys ! i) \<in> {CLOSING, CLOSED}"
    by (auto simp: session_inv_alt nth_append)
  from assms True have flags: "\<not> isCalibrating s" "intervals s = []"
    "detectionInterval s = None"
    by (auto simp: session_inv_alt)
  show ?thesis
    using True xs cur old flags
    by (auto simp: session_inv_alt cb_defs Let_def nth_append nth_list_update)
qed

lemma inv_stop:
  assumes "session_inv s"
  shows "session_inv (step num ClickStop s)"
proof (cases "isMeasuring s")
  case False
  then show ?thesis using assms by (simp add: step_def rerender_def)
next
  case True
  from assms obtain ys y where xs: "sockets s = ys @ [y]"
    by (cases "sockets s" rule: rev_cases) (auto simp: session_inv_alt)
  from assms xs have cur: "ws s = Some (length ys)"
    by (simp add: session_inv_alt)
  from assms xs have old: "\<forall>i<length ys. readyState (ys ! i) \<in> {CLOSING, CLOSED}"
    by (auto simp: session_inv_alt nth_append)
  from assms True have flags: "isCalibrated s" "\<not> isCalibrating s"
    "detectionInterval s = Some (interval_seq s)" "0 < interval_seq s"
    "intervals s = [interval_seq s]"
    by (auto simp: session_inv_alt)
  show ?thesis
    using True xs cur old flags
    by (cases "readyState y")
       (auto simp: session_inv_alt cb_defs Let_def nth_append nth_list_update)
qed

lemma inv_step: "session_inv s \<Longrightarrow> session_inv (step num e s)"
  by (cases e)
     (simp_all add: inv_calibrate inv_capture inv_measure inv_stop inv_tick inv_open
        inv_message inv_close inv_error)

lemma inv_run: "session_inv s \<Longrightarrow> session_inv (run num es s)"
  by (induction es arbitrary: s) (simp_all add: inv_step)

lemma inv_reachable: "session_inv (run num es mount)"
  by (rule inv_run [OF inv_mount])

lemma open_is_current:
  assumes "session_inv s" "i < length (sockets s)" "readyState (sockets s ! i) = OPEN"
  shows "i = length (sockets s) - 1" "seen_isMeasuring (sockets s ! i) = isMeasuring s"
    "ws s = Some i"
proof -
  from assms show i: "i = length (sockets s) - 1"
    by (cases "i < length (sockets s) - 1") (auto simp: session_inv_alt)
  from assms i show "seen_isMeasuring (sockets s ! i) = isMeasuring s" "ws s = Some i"
    by (auto simp: session_inv_alt last_conv_nth)
qed

lemma phase_Measuring: "phase s = Measuring \<longleftrightarrow> isMeasuring s"
  by (simp add: phase_def)

lemma phase_Calibrating:
  "session_inv s \<Longrightarrow> phase s = Calibrating \<longleftrightarrow> isCalibrating s"
  by (auto simp: phase_def session_inv_alt)

subsection \<open>Steps and runs\<close>

lemma run_append: "run num (es @ es') s = run num es' (run num es s)"
  by (induction es arbitrary: s) simp_all

lemma rerender_frame [simp]:
  "showCamera (rerender p s) = showCamera s"
  "currentDistance (rerender p s) = currentDistance s"
  "focalLength (rerender p s) = focalLength s"
  "processedImage (rerender p s) = processedImage s"
  "connectionStatus (rerender p s) = connectionStatus s"
  "isCalibrating (rerender p s) = isCalibrating s"
  "isCalibrated (rerender p s) = isCalibrated s"
  "statusMessage (rerender p s) = statusMessage s"
  "isMeasuring (rerender p s) = isMeasuring s"
  "detectionInterval (rerender p s) = detectionInterval s"
  "frameCountRef (rerender p s) = frameCountRef s"
  "sent (rerender p s) = sent s"
  "intervals (rerender p s) = intervals s"
  "interval_seq (rerender p s) = interval_seq s"
  by (simp_all add: rerender_def ws_effect_def ws_cleanup_def ws_close_def set_readyState_def
        split: option.splits)

lemma rerender_same: "isMeasuring s = isMeasuring p \<Longrightarrow> rerender p s = s"
  by (simp add: rerender_def)

lemma step_message:
  "step num (WsMessage i data) s =
     (if i < length (sockets s) \<and> readyState (sockets s ! i) = OPEN
      then onmessage num (seen_isMeasuring (sockets s ! i)) data s
      else s)"
  by (simp add: step_def rerender_same)

subsection \<open>Example states\<close>

lemma calibrating_state:
  "run num [WsOpen 0, ClickCalibrate] mount =
     \<lparr>showCamera = True, currentDistance = ''0m'', focalLength = 0, processedImage = None,
      connectionStatus = ''connected'', isCalibrating = True, isCalibrated = False,
      statusMessage = calibration_prompt, isMeasuring = False, ws = Some 0,
      detectionInterval = None, frameCountRef = 0,
      sockets = [\<lparr>readyState = OPEN, seen_isMeasuring = False\<rparr>],
      sent = [(0, \<lparr>command = Some ''start_calibration'', image_data = None\<rparr>)],
      intervals = [], interval_seq = 0\<rparr>"
  by (simp add: cb_defs mount_def initial_def)

lemma calibrated_state:
  "run num [WsOpen 0, ClickCalibrate, WsMessage 0 calibration_reply] mount =
     \<lparr>showCamera = True, currentDistance = ''0m'', focalLength = 450.2, processedImage = None,
      connectionStatus = ''connected'', isCalibrating = False, isCalibrated = True,
      statusMessage = ''Calibration complete'', isMeasuring = False, ws = Some 0,
      detectionInterval = None, frameCountRef = 0,
      sockets = [\<lparr>readyState = OPEN, seen_isMeasuring = False\<rparr>],
      sent = [(0, \<lparr>command = Some ''start_calibration'', image_data = None\<rparr>)],
      intervals = [], interval_seq = 0\<rparr>"
  using calibrating_state [of num]
  by (simp add: step_def rerender_def stage_eqs new_focal_def new_status_def new_error_def
        new_image_def new_distance_def marked_def toLowerCaseJS_def calibration_reply_def)

lemma measuring_state:
  "run num to_measuring mount =
     (\<lparr>showCamera = True, currentDistance = ''0m'', focalLength = 450.2, processedImage = None,
      connectionStatus = ''connected'', isCalibrating = False, isCalibrated = True,
      statusMessage = measuring_prompt, isMeasuring = True, ws = Some 1,
      detectionInterval = Some 1, frameCountRef = 0,
      sockets = [\<lparr>readyState = CLOSING, seen_isMeasuring = False\<rparr>,
                 \<lparr>readyState = CONNECTING, seen_isMeasuring = True\<rparr>],
      sent = [(0, \<lparr>command = Some ''start_calibration'', image_data = None\<rparr>),
              (0, \<lparr>command = Some ''start_distance'', image_data = None\<rparr>)],
      intervals = [1], interval_seq = 1\<rparr>)" (is "_ = ?thesis_rhs")
proof -
  have "run num to_measuring mount =
          step num ClickMeasure (run num [WsOpen 0, ClickCalibrate, WsMessage 0 calibration_reply] mount)"
    by (simp add: to_measuring_def)
  also have "\<dots> = ?thesis_rhs"
    unfolding calibrated_state
    by (simp add: step_def rerender_def startMeasuringDistance_def ws_open_def ws_send_def
          setInterval_def ws_effect_def ws_cleanup_def ws_close_def set_readyState_def)
  finally show ?thesis .
qed

lemma measuring_open_state:
  "run num (to_measuring @ [WsOpen 1]) mount =
     (\<lparr>showCamera = True, currentDistance = ''0m'', focalLength = 450.2, processedImage = None,
      connectionStatus = ''connected'', isCalibrating = False, isCalibrated = True,
      statusMessage = measuring_prompt, isMeasuring = True, ws = Some 1,
      detectionInterval = Some 1, frameCountRef = 0,
      sockets = [\<lparr>readyState = CLOSING, seen_isMeasuring = False\<rparr>,
                 \<lparr>readyState = OPEN, seen_isMeasuring = True\<rparr>],
      sent = [(0, \<lparr>command = Some ''start_calibration'', image_data = None\<rparr>),
              (0, \<lparr>command = Some ''start_distance'', image_data = None\<rparr>)],
      intervals = [1], interval_seq = 1\<rparr>)"
  unfolding run_append measuring_state
  by (simp add: step_def rerender_same set_readyState_def)

lemma stopped_state:
  "run num (to_measuring @ [ClickStop]) mount =
     (\<lparr>showCamera = True, currentDistance = ''0m'', focalLength = 450.2, processedImage = None,
      connectionStatus = ''connected'', isCalibrating = False, isCalibrated = True,
      statusMessage = ''Measurement stopped'', isMeasuring = False, ws = Some 2,
      detectionInterval = None, frameCountRef = 0,
      sockets = [\<lparr>readyState = CLOSING, seen_isMeasuring = False\<rparr>,
                 \<lparr>readyState = CLOSING, seen_isMeasuring = True\<rparr>,
                 \<lparr>readyState = CONNECTING, seen_isMeasuring = False\<rparr>],
      sent = [(0, \<lparr>command = Some ''start_calibration'', image_data = None\<rparr>),
              (0, \<lparr>command = Some ''start_distance'', image_data = None\<rparr>)],
      intervals = [], interval_seq = 1\<rparr>)"
  unfolding run_append measuring_state
  by (simp add: step_def rerender_def stopMeasuringDistance_def ws_open_def clearInterval_def
        ws_effect_def ws_cleanup_def ws_close_def set_readyState_def)

lemma stopped_open_state:
  "run num (to_measuring @ [ClickStop, WsOpen 2]) mount =
     (\<lparr>showCamera = True, currentDistance = ''0m'', focalLength = 450.2, processedImage = None,
      connectionStatus = ''connected'', isCalibrating = False, isCalibrated = True,
      statusMessage = ''Measurement stopped'', isMeasuring = False, ws = Some 2,
      detectionInterval = None, frameCountRef = 0,
      sockets = [\<lparr>readyState = CLOSING, seen_isMeasuring = False\<rparr>,
                 \<lparr>readyState = CLOSING, seen_isMeasuring = True\<rparr>,
                 \<lparr>readyState = OPEN, seen_isMeasuring = False\<rparr>],
      sent = [(0, \<lparr>command = Some ''start_calibration'', image_data = None\<rparr>),
              (0, \<lparr>command = Some ''start_distance'', image_data = None\<rparr>)],
      intervals = [], interval_seq = 1\<rparr>)"
proof -
  have "run num (to_measuring @ [ClickStop, WsOpen 2]) mount =
          step num (WsOpen 2) (run num (to_measuring @ [ClickStop]) mount)"
    by (simp add: run_append)
  then show ?thesis
    unfolding stopped_state
    by (simp add: step_def rerender_same set_readyState_def)
qed

subsection \<open>Connections\<close>

lemma dispatch_sockets_length: "length (sockets (dispatch num e s)) = length (sockets s)"
  by (cases e)
     (simp_all add: startCalibration_def captureCalibration_def startMeasuringDistance_def
        stopMeasuringDistance_def sendFrame_def ws_send_def set_readyState_def setInterval_def
        clearInterval_def Let_def split: option.splits)

lemma step_sockets_length:
  "length (sockets (step num e s)) =
     length (sockets s) + (if isMeasuring (step num e s) = isMeasuring s then 0 else 1)"
proof -
  have "isMeasuring (ws_effect (ws_cleanup x)) = isMeasuring x" for x
    by (simp add: ws_effect_def ws_cleanup_def ws_close_def set_readyState_def split: option.splits)
  moreover have "length (sockets (ws_effect (ws_cleanup x))) = Suc (length (sockets x))" for x
    by (simp add: ws_effect_def ws_cleanup_def ws_close_def set_readyState_def split: option.splits)
  ultimately show ?thesis
    by (simp add: step_def rerender_def dispatch_sockets_length)
qed

lemma run_sockets_length: "length (sockets (run num es s)) = length (sockets s) + flips num es s"
  by (induction es arbitrary: s) (simp_all add: step_sockets_length)

lemma flip_by_click:
  "isMeasuring (step num e s) \<noteq> isMeasuring s \<Longrightarrow> e = ClickMeasure \<or> e = ClickStop"
proof -
  have "isMeasuring (ws_effect (ws_cleanup x)) = isMeasuring x" for x
    by (simp add: ws_effect_def ws_cleanup_def ws_close_def set_readyState_def split: option.splits)
  then have "isMeasuring (step num e s) = isMeasuring (dispatch num e s)"
    by (simp add: step_def rerender_def)
  moreover assume "isMeasuring (step num e s) \<noteq> isMeasuring s"
  ultimately show ?thesis
    by (cases e)
       (simp_all add: startCalibration_def captureCalibration_def sendFrame_def ws_send_def
          set_readyState_def split: option.splits if_splits)
qed

lemma dispatch_ws: "ws (dispatch num e s) = ws s"
  by (cases e)
     (simp_all add: startCalibration_def captureCalibration_def startMeasuringDistance_def
        stopMeasuringDistance_def sendFrame_def ws_send_def set_readyState_def setInterval_def
        clearInterval_def Let_def split: option.splits)

lemma reconnect_on_flip:
  assumes "session_inv s" and "isMeasuring (step num e s) \<noteq> isMeasuring s"
  shows "readyState (sockets (step num e s) ! (length (sockets s) - 1)) \<in> {CLOSING, CLOSED}"
    and "readyState (last (sockets (step num e s))) = CONNECTING"
    and "ws (step num e s) = Some (length (sockets s))"
proof -
  from assms(2) have st: "step num e s = ws_effect (ws_cleanup (dispatch num e s))"
    by (auto simp: step_def rerender_def)
  have len: "length (sockets (ws_cleanup x)) = length (sockets x)" for x
    by (simp add: ws_cleanup_def ws_close_def set_readyState_def split: option.splits)
  show "readyState (last (sockets (step num e s))) = CONNECTING"
    by (simp add: st ws_effect_def)
  show "ws (step num e s) = Some (length (sockets s))"
    by (simp add: st ws_effect_def len dispatch_sockets_length)
  from step_sockets_length [of num e s] assms(2)
  have n: "length (sockets (step num e s)) = Suc (length (sockets s))"
    by simp
  from assms(1) have "sockets s \<noteq> []"
    by (simp add: session_inv_alt)
  with n have "length (sockets s) - 1 < length (sockets (step num e s)) - 1"
    by (cases "sockets s") simp_all
  with inv_step [OF assms(1), of num e]
  show "readyState (sockets (step num e s) ! (length (sockets s) - 1)) \<in> {CLOSING, CLOSED}"
    unfolding session_inv_alt by blast
qed

text \<open>
  Claim C1, as amended. The session opens one connection when it mounts and one more each
  time \<open>isMeasuring\<close> changes, so after the events \<open>es\<close> it has opened one plus the
  number of changes of \<open>isMeasuring\<close>; only a click on Measure Distance or on Stop
  Measuring changes \<open>isMeasuring\<close>. At such a change the socket that was current is
  closed first (it is closing or closed afterwards), the new socket is connecting and
  \<open>ws.current\<close> points to it; so at every moment \<open>ws.current\<close> is the socket opened
  last and every older socket is closing or closed. A close or an error of a socket opens
  no connection and leaves \<open>ws.current\<close> where it was: there is no reconnect on a drop.
\<close>

theorem connections_follow_isMeasuring:
  "length (sockets (run num es mount)) = 1 + flips num es mount
   \<and> (isMeasuring (step num e s) \<noteq> isMeasuring s \<longrightarrow> e = ClickMeasure \<or> e = ClickStop)
   \<and> length (sockets (step num (WsClose i) s)) = length (sockets s)
   \<and> ws (step num (WsClose i) s) = ws s
   \<and> length (sockets (step num (WsError i) s)) = length (sockets s)
   \<and> ws (step num (WsError i) s) = ws s
   \<and> ws (run num es mount) = Some (length (sockets (run num es mount)) - 1)
   \<and> (j < length (sockets (run num es mount)) - 1 \<longrightarrow>
        readyState (sockets (run num es mount) ! j) \<in> {CLOSING, CLOSED})
   \<and> (isMeasuring (step num e (run num es mount)) \<noteq> isMeasuring (run num es mount) \<longrightarrow>
        readyState (sockets (step num e (run num es mount)) ! (length (sockets (run num es mount)) - 1))
          \<in> {CLOSING, CLOSED}
        \<and> readyState (last (sockets (step num e (run num es mount)))) = CONNECTING
        \<and> ws (step num e (run num es mount)) = Some (length (sockets (run num es mount))))"
proof -
  let ?r = "run num es mount"
  have inv: "session_inv ?r" by (rule inv_reachable)
  have "length (sockets ?r) = 1 + flips num es mount"
    by (simp add: run_sockets_length mount_def ws_effect_def initial_def)
  moreover have "ws (step num (WsClose i) s) = ws s" "ws (step num (WsError i) s) = ws s"
    by (simp_all add: step_def rerender_def set_readyState_def)
  moreover have "length (sockets (step num (WsClose i) s)) = length (sockets s)"
    "length (sockets (step num (WsError i) s)) = length (sockets s)"
    by (simp_all add: step_def rerender_def set_readyState_def)
  moreover have "ws ?r = Some (length (sockets ?r) - 1)"
    using inv by (simp add: session_inv_alt)
  moreover have "readyState (sockets ?r ! j) \<in> {CLOSING, CLOSED}"
    if "j < length (sockets ?r) - 1"
    using inv that unfolding session_inv_alt by blast
  moreover have "readyState (sockets (step num e ?r) ! (length (sockets ?r) - 1)) \<in> {CLOSING, CLOSED}
        \<and> readyState (last (sockets (step num e ?r))) = CONNECTING
        \<and> ws (step num e ?r) = Some (length (sockets ?r))"
    if "isMeasuring (step num e ?r) \<noteq> isMeasuring ?r"
    using reconnect_on_flip [OF inv that] by blast
  ultimately show ?thesis using flip_by_click [of num e s] by blast
qed

theorem connections_follow_isMeasuring_witness:
  "flips fixed_num to_measuring mount = 1
   \<and> isMeasuring (step fixed_num ClickMeasure
         (run fixed_num [WsOpen 0, ClickCalibrate, WsMessage 0 calibration_reply] mount))
       \<noteq> isMeasuring (run fixed_num [WsOpen 0, ClickCalibrate, WsMessage 0 calibration_reply] mount)
   \<and> readyState (sockets (step fixed_num ClickMeasure
         (run fixed_num [WsOpen 0, ClickCalibrate, WsMessage 0 calibration_reply] mount)) ! 0)
       \<in> {CLOSING, CLOSED}
   \<and> readyState (last (sockets (step fixed_num ClickMeasure
         (run fixed_num [WsOpen 0, ClickCalibrate, WsMessage 0 calibration_reply] mount))))
       = CONNECTING
   \<and> (0::nat) < length (sockets (run fixed_num to_measuring mount)) - 1
   \<and> readyState (sockets (run fixed_num to_measuring mount) ! 0) \<in> {CLOSING, CLOSED}"
proof -
  let ?c = "run fixed_num [WsOpen 0, ClickCalibrate, WsMessage 0 calibration_reply] mount"
  have "step fixed_num ClickMeasure ?c = run fixed_num to_measuring mount"
    by (simp add: to_measuring_def)
  then have m: "isMeasuring (step fixed_num ClickMeasure ?c)"
    by (simp only: measuring_state app.simps)
  have c: "\<not> isMeasuring ?c" "length (sockets ?c) - 1 = 0"
    unfolding calibrated_state by simp_all
  have l: "length (sockets (run fixed_num to_measuring mount)) = 2"
    "(0::nat) < length (sockets (run fixed_num to_measuring mount)) - 1"
    by (simp_all add: measuring_state)
  note at_run = connections_follow_isMeasuring
    [of fixed_num to_measuring ClickMeasure ?c _ 0]
  note at_step = connections_follow_isMeasuring
    [of fixed_num "[WsOpen 0, ClickCalibrate, WsMessage 0 calibration_reply]" ClickMeasure ?c]
  from at_run [THEN conjunct1] l(1) have f: "flips fixed_num to_measuring mount = 1"
    by linarith
  from at_run l(2) have o: "readyState (sockets (run fixed_num to_measuring mount) ! 0) \<in> {CLOSING, CLOSED}"
    by blast
  from at_step m c(1)
  have "readyState (sockets (step fixed_num ClickMeasure ?c) ! (length (sockets ?c) - 1))
          \<in> {CLOSING, CLOSED}
        \<and> readyState (last (sockets (step fixed_num ClickMeasure ?c))) = CONNECTING"
    by blast
  with c(2) have n: "readyState (sockets (step fixed_num ClickMeasure ?c) ! 0) \<in> {CLOSING, CLOSED}"
    "readyState (last (sockets (step fixed_num ClickMeasure ?c))) = CONNECTING"
    by simp_all
  from f m c(1) n l(2) o show ?thesis by blast
qed

text \<open>
  Claim C1 as stated, at most one connection per mount, fails: calibrating and then
  starting to measure has opened two.
\<close>

theorem second_connection_counterexample:
  "\<not> length (sockets (run fixed_num to_measuring mount)) \<le> 1"
  by (simp add: measuring_state)

subsection \<open>After the stop\<close>

lemma not_measuring_step:
  assumes "session_inv s" "\<not> isMeasuring s" "e \<noteq> ClickMeasure"
  shows "\<not> isMeasuring (step num e s)" "currentDistance (step num e s) = currentDistance s"
proof -
  have "\<not> isMeasuring (step num e s) \<and> currentDistance (step num e s) = currentDistance s"
  proof (cases e)
    case (WsMessage i data)
    show ?thesis
      using assms open_is_current(2) [of s i]
      by (simp add: WsMessage step_message onmessage_currentDistance new_distance_unseen)
  qed (use assms in \<open>simp_all add: step_def startCalibration_def captureCalibration_def
         sendFrame_def ws_send_def set_readyState_def session_inv_alt split: option.splits\<close>)
  then show "\<not> isMeasuring (step num e s)" "currentDistance (step num e s) = currentDistance s"
    by simp_all
qed

lemma not_measuring_run:
  "session_inv s \<Longrightarrow> \<not> isMeasuring s \<Longrightarrow> ClickMeasure \<notin> set es \<Longrightarrow>
   \<not> isMeasuring (run num es s) \<and> currentDistance (run num es s) = currentDistance s"
proof (induction es arbitrary: s)
  case Nil
  then show ?case by simp
next
  case (Cons e es)
  from Cons.prems have e: "e \<noteq> ClickMeasure" and es: "ClickMeasure \<notin> set es"
    by auto
  note st = not_measuring_step [OF Cons.prems(1,2) e, of num]
  from Cons.IH [OF inv_step [OF Cons.prems(1)] st(1) es] st(2)
  show ?case by simp
qed

lemma stop_effect:
  assumes "session_inv s" "isMeasuring s"
  shows "sent (step num ClickStop s) =
           (if ws_open s
            then sent s @ [(length (sockets s) - 1, \<lparr>command = Some ''stop_all'', image_data = None\<rparr>)]
            else sent s)"
    "intervals (step num ClickStop s) = []"
    "detectionInterval (step num ClickStop s) = None"
    "currentDistance (step num ClickStop s) = ''0m''"
    "processedImage (step num ClickStop s) = None"
    "statusMessage (step num ClickStop s) = ''Measurement stopped''"
    "isMeasuring (step num ClickStop s) = False"
    "isCalibrated (step num ClickStop s) = True"
  using assms
  by (simp_all add: step_def stopMeasuringDistance_def ws_send_def clearInterval_def
        session_inv_alt Let_def)

lemma old_socket_silent:
  assumes "session_inv s" and "i \<noteq> length (sockets s) - 1"
  shows "step num (WsMessage i data) s = s"
  using assms open_is_current(1) [of s i]
  by (auto simp: step_message)

text \<open>
  Claim C2, as amended. Once Stop Measuring has run, and for as long as measuring is not
  started again, whatever else happens (inbound messages included) leaves the displayed
  distance at \<open>0m\<close> and the phase other than Measuring. The stop clears the processed
  image. A message on any socket but the current one is not processed, so the results of
  frames still in flight at the stop, which come back on the socket the stop has closed,
  change nothing. A later message on the current socket sets the processed image again
  exactly when it has a true \<open>success\<close> and carries a non-empty \<open>processed_image\<close>.
\<close>

theorem distance_stays_cleared_after_stop:
  assumes "isMeasuring (run num es mount)" and "ClickMeasure \<notin> set es'"
  shows "currentDistance (run num (es @ ClickStop # es') mount) = ''0m''
         \<and> phase (run num (es @ ClickStop # es') mount) \<noteq> Measuring
         \<and> processedImage (run num (es @ [ClickStop]) mount) = None
         \<and> (i \<noteq> length (sockets (run num (es @ ClickStop # es') mount)) - 1 \<longrightarrow>
              step num (WsMessage i data) (run num (es @ ClickStop # es') mount)
                = run num (es @ ClickStop # es') mount)
         \<and> processedImage (step num (WsMessage i data) s) =
             (if i < length (sockets s) \<and> readyState (sockets s ! i) = OPEN
                 \<and> success data = Some True
              then (case processed_image data of
                      None \<Rightarrow> processedImage s
                    | Some img \<Rightarrow> if img = [] then processedImage s else Some img)
              else processedImage s)"
proof -
  let ?s = "run num es mount"
  have inv: "session_inv ?s" by (rule inv_reachable)
  note st = stop_effect [OF inv assms(1), of num]
  have "\<not> isMeasuring (run num es' (step num ClickStop ?s))
        \<and> currentDistance (run num es' (step num ClickStop ?s)) = currentDistance (step num ClickStop ?s)"
    using not_measuring_run [OF inv_step [OF inv], of num ClickStop es' num] st(7) assms(2)
    by simp
  then have "currentDistance (run num (es @ ClickStop # es') mount) = ''0m''"
    "phase (run num (es @ ClickStop # es') mount) \<noteq> Measuring"
    using st(4) by (simp_all add: run_append phase_def)
  moreover have "processedImage (run num (es @ [ClickStop]) mount) = None"
    using st(5) by (simp add: run_append)
  moreover have "step num (WsMessage i data) (run num (es @ ClickStop # es') mount)
                = run num (es @ ClickStop # es') mount"
    if "i \<noteq> length (sockets (run num (es @ ClickStop # es') mount)) - 1"
    using old_socket_silent [OF inv_reachable that] .
  moreover have "processedImage (step num (WsMessage i data) s) =
             (if i < length (sockets s) \<and> readyState (sockets s ! i) = OPEN
                 \<and> success data = Some True
              then (case processed_image data of
                      None \<Rightarrow> processedImage s
                    | Some img \<Rightarrow> if img = [] then processedImage s else Some img)
              else processedImage s)"
    by (simp add: step_message onmessage_processedImage new_image_def)
  ultimately show ?thesis by blast
qed

theorem distance_stays_cleared_after_stop_witness:
  "isMeasuring (run fixed_num (to_measuring @ [WsOpen 1]) mount)
   \<and> ClickMeasure \<notin> set [WsMessage 1 frame_result, WsOpen 2, WsMessage 2 frame_result]
   \<and> currentDistance
        (run fixed_num
           ((to_measuring @ [WsOpen 1]) @ ClickStop # [WsMessage 1 frame_result, WsOpen 2, WsMessage 2 frame_result])
           mount) = ''0m''
   \<and> isMeasuring (run fixed_num to_measuring mount)
   \<and> 1 \<noteq> length (sockets (run fixed_num (to_measuring @ [ClickStop]) mount)) - 1
   \<and> step fixed_num (WsMessage 1 frame_result) (run fixed_num (to_measuring @ [ClickStop]) mount)
       = run fixed_num (to_measuring @ [ClickStop]) mount"
proof -
  have m: "isMeasuring (run fixed_num (to_measuring @ [WsOpen 1]) mount)"
    unfolding measuring_open_state by simp
  have n: "ClickMeasure \<notin> set [WsMessage 1 frame_result, WsOpen 2, WsMessage 2 frame_result]"
    by simp
  have m': "isMeasuring (run fixed_num to_measuring mount)"
    unfolding measuring_state by simp
  have n': "ClickMeasure \<notin> set []"
    by simp
  have l: "1 \<noteq> length (sockets (run fixed_num (to_measuring @ [ClickStop]) mount)) - 1"
    unfolding stopped_state by simp
  from distance_stays_cleared_after_stop [OF m' n', of 1 frame_result] l
  have "step fixed_num (WsMessage 1 frame_result) (run fixed_num (to_measuring @ [ClickStop]) mount)
       = run fixed_num (to_measuring @ [ClickStop]) mount"
    by blast
  with distance_stays_cleared_after_stop [OF m n] m n m' l show ?thesis by blast
qed

text \<open>
  Claim C2 as stated fails for the processed image: after the stop, with the phase back at
  Calibrated, a result that carries an image puts it on display.
\<close>

theorem image_after_stop_counterexample:
  "phase (run fixed_num (to_measuring @ [ClickStop, WsOpen 2, WsMessage 2 frame_result]) mount) = Calibrated
   \<and> processedImage (run fixed_num (to_measuring @ [ClickStop, WsOpen 2, WsMessage 2 frame_result]) mount)
       = Some ''data:image/jpeg;base64,AA==''"
proof -
  have "run fixed_num (to_measuring @ [ClickStop, WsOpen 2, WsMessage 2 frame_result]) mount =
          step fixed_num (WsMessage 2 frame_result)
            (run fixed_num (to_measuring @ [ClickStop, WsOpen 2]) mount)"
    by (simp add: run_append)
  then show ?thesis
    unfolding stopped_open_state
    by (simp add: step_message onmessage_processedImage onmessage_flags new_image_def phase_def
          frame_result_def)
qed

subsection \<open>The stop itself\<close>

text \<open>
  Claim C3, as amended. A click on Stop Measuring in phase Measuring sends
  \<open>{command: stop_all}\<close> on the current socket when that socket is open and sends nothing
  when it is not; in both cases it clears the interval, sets the displayed distance to
  \<open>0m\<close>, clears the processed image and moves the phase to Calibrated, whatever had been
  received while measuring.
\<close>

theorem stop_measuring:
  assumes "phase (run num es mount) = Measuring"
  shows "sent (step num ClickStop (run num es mount)) =
           (if ws_open (run num es mount)
            then sent (run num es mount)
                   @ [(length (sockets (run num es mount)) - 1,
                       \<lparr>command = Some ''stop_all'', image_data = None\<rparr>)]
            else sent (run num es mount))
         \<and> intervals (step num ClickStop (run num es mount)) = []
         \<and> detectionInterval (step num ClickStop (run num es mount)) = None
         \<and> currentDistance (step num ClickStop (run num es mount)) = ''0m''
         \<and> processedImage (step num ClickStop (run num es mount)) = None
         \<and> phase (step num ClickStop (run num es mount)) = Calibrated"
proof -
  have inv: "session_inv (run num es mount)" by (rule inv_reachable)
  from assms have m: "isMeasuring (run num es mount)" by (simp add: phase_Measuring)
  note st = stop_effect [OF inv m, of num]
  from st(7,8) have "phase (step num ClickStop (run num es mount)) = Calibrated"
    by (simp add: phase_def)
  with st(1-5) show ?thesis by simp
qed

theorem stop_measuring_witness:
  "phase (run fixed_num (to_measuring @ [WsOpen 1]) mount) = Measuring
   \<and> sent (step fixed_num ClickStop (run fixed_num (to_measuring @ [WsOpen 1]) mount)) =
       [(0, \<lparr>command = Some ''start_calibration'', image_data = None\<rparr>),
        (0, \<lparr>command = Some ''start_distance'', image_data = None\<rparr>),
        (1, \<lparr>command = Some ''stop_all'', image_data = None\<rparr>)]
   \<and> phase (step fixed_num ClickStop (run fixed_num (to_measuring @ [WsOpen 1]) mount)) = Calibrated"
proof -
  have p: "phase (run fixed_num (to_measuring @ [WsOpen 1]) mount) = Measuring"
    unfolding measuring_open_state by (simp add: phase_def)
  have o: "ws_open (run fixed_num (to_measuring @ [WsOpen 1]) mount)"
    unfolding measuring_open_state by (simp add: ws_open_def)
  have s: "sent (run fixed_num (to_measuring @ [WsOpen 1]) mount) =
       [(0, \<lparr>command = Some ''start_calibration'', image_data = None\<rparr>),
        (0, \<lparr>command = Some ''start_distance'', image_data = None\<rparr>)]"
    "length (sockets (run fixed_num (to_measuring @ [WsOpen 1]) mount)) = 2"
    unfolding measuring_open_state by simp_all
  from stop_measuring [OF p] p o s show ?thesis by simp
qed

text \<open>
  Claim C3 as stated fails where the socket is not open: right after the start of
  measuring the new socket is still connecting, and a stop there sends nothing.
\<close>

theorem stop_without_stop_all_counterexample:
  "phase (run fixed_num to_measuring mount) = Measuring
   \<and> sent (run fixed_num (to_measuring @ [ClickStop]) mount) =
       [(0, \<lparr>command = Some ''start_calibration'', image_data = None\<rparr>),
        (0, \<lparr>command = Some ''start_distance'', image_data = None\<rparr>)]"
proof -
  have "phase (run fixed_num to_measuring mount) = Measuring"
    unfolding measuring_state by (simp add: phase_def)
  moreover have "sent (run fixed_num (to_measuring @ [ClickStop]) mount) =
       [(0, \<lparr>command = Some ''start_calibration'', image_data = None\<rparr>),
        (0, \<lparr>command = Some ''start_distance'', image_data = None\<rparr>)]"
    unfolding stopped_state by simp
  ultimately show ?thesis by blast
qed

subsection \<open>Bare frames\<close>

lemma frames_unless_tick:
  "(\<exists>t shot. e = IntervalTick t shot) \<or> frames (step num e s) = frames s"
proof -
  have "(\<exists>t shot. e = IntervalTick t shot) \<or> frames (dispatch num e s) = frames s"
    by (cases e)
       (simp_all add: frames_def startCalibration_def captureCalibration_def
          startMeasuringDistance_def stopMeasuringDistance_def ws_send_def set_readyState_def
          setInterval_def clearInterval_def Let_def split: option.splits)
  then show ?thesis by (simp add: step_def frames_def)
qed

lemma idle_tick:
  "\<not> ws_open s \<or> shot = None \<or> shot = Some [] \<Longrightarrow> step num (IntervalTick t shot) s = s"
  by (auto simp: step_def rerender_same sendFrame_def)

lemma tick_not_measuring:
  "session_inv s \<Longrightarrow> \<not> isMeasuring s \<Longrightarrow> step num (IntervalTick t shot) s = s"
  by (simp add: step_def rerender_same session_inv_alt)

text \<open>
  Claim C4. A bare frame is a sent message without a \<open>command\<close> key. In a reachable state
  whose phase is not Measuring, or whose socket is not open, no event adds a bare frame to
  what was sent. A tick on which the socket is not open or no snapshot is available leaves
  the whole state as it was: nothing is sent and nothing is kept for later. A tick in
  phase Measuring with the socket open, the camera shown and a snapshot at hand sends that
  snapshot as one bare frame.
\<close>

theorem frames_only_while_measuring:
  "(phase (run num es mount) \<noteq> Measuring \<or> \<not> ws_open (run num es mount) \<longrightarrow>
      frames (step num e (run num es mount)) = frames (run num es mount))
   \<and> (\<not> ws_open s \<or> shot = None \<or> shot = Some [] \<longrightarrow> step num (IntervalTick t shot) s = s)
   \<and> (phase (run num es mount) = Measuring \<and> ws_open (run num es mount)
        \<and> showCamera (run num es mount) \<and> img \<noteq> [] \<longrightarrow>
      step num (IntervalTick (interval_seq (run num es mount)) (Some img)) (run num es mount) =
        (run num es mount)
          \<lparr>frameCountRef := frameCountRef (run num es mount) + 1,
           sent := sent (run num es mount)
                     @ [(length (sockets (run num es mount)) - 1,
                         \<lparr>command = None, image_data = Some img\<rparr>)]\<rparr>)"
proof -
  let ?r = "run num es mount"
  have inv: "session_inv ?r" by (rule inv_reachable)
  have a: "frames (step num e ?r) = frames ?r" if "phase ?r \<noteq> Measuring \<or> \<not> ws_open ?r"
  proof (cases "\<exists>t shot. e = IntervalTick t shot")
    case True
    then obtain t shot where e: "e = IntervalTick t shot" by blast
    from that have "step num (IntervalTick t shot) ?r = ?r"
      using tick_not_measuring [OF inv, of num t shot] idle_tick [of ?r shot num t]
      by (auto simp: phase_Measuring)
    with e show ?thesis by simp
  next
    case False
    with frames_unless_tick [of e num ?r] show ?thesis by blast
  qed
  have b: "step num (IntervalTick t shot) s = s" if "\<not> ws_open s \<or> shot = None \<or> shot = Some []"
    using that by (rule idle_tick)
  have c: "step num (IntervalTick (interval_seq ?r) (Some img)) ?r =
        ?r\<lparr>frameCountRef := frameCountRef ?r + 1,
           sent := sent ?r @ [(length (sockets ?r) - 1, \<lparr>command = None, image_data = Some img\<rparr>)]\<rparr>"
    if "phase ?r = Measuring \<and> ws_open ?r \<and> showCamera ?r \<and> img \<noteq> []"
    using that inv
    by (auto simp: phase_Measuring step_def rerender_same sendFrame_def ws_send_def
          session_inv_alt)
  from a b c show ?thesis by blast
qed

theorem frames_only_while_measuring_witness:
  "phase (run fixed_num [WsOpen 0, ClickCalibrate, WsMessage 0 calibration_reply] mount) \<noteq> Measuring
   \<and> frames (step fixed_num (IntervalTick 1 (Some ''data:image/jpeg;base64,AA==''))
               (run fixed_num [WsOpen 0, ClickCalibrate, WsMessage 0 calibration_reply] mount))
       = frames (run fixed_num [WsOpen 0, ClickCalibrate, WsMessage 0 calibration_reply] mount)
   \<and> \<not> ws_open (run fixed_num to_measuring mount)
   \<and> step fixed_num (IntervalTick 1 (Some ''data:image/jpeg;base64,AA==''))
         (run fixed_num to_measuring mount) = run fixed_num to_measuring mount
   \<and> phase (run fixed_num (to_measuring @ [WsOpen 1]) mount) = Measuring
   \<and> sent (step fixed_num (IntervalTick 1 (Some ''data:image/jpeg;base64,AA==''))
             (run fixed_num (to_measuring @ [WsOpen 1]) mount)) =
       [(0, \<lparr>command = Some ''start_calibration'', image_data = None\<rparr>),
        (0, \<lparr>command = Some ''start_distance'', image_data = None\<rparr>),
        (1, \<lparr>command = None, image_data = Some ''data:image/jpeg;base64,AA==''\<rparr>)]"
proof -
  let ?c = "run fixed_num [WsOpen 0, ClickCalibrate, WsMessage 0 calibration_reply] mount"
  let ?m = "run fixed_num to_measuring mount"
  let ?o = "run fixed_num (to_measuring @ [WsOpen 1]) mount"
  let ?tick = "IntervalTick 1 (Some ''data:image/jpeg;base64,AA=='')"
  have c: "phase ?c \<noteq> Measuring"
    unfolding calibrated_state by (simp add: phase_def)
  have m: "\<not> ws_open ?m"
    unfolding measuring_state by (simp add: ws_open_def)
  have o: "phase ?o = Measuring" "ws_open ?o" "showCamera ?o" "interval_seq ?o = 1"
    "length (sockets ?o) = 2"
    "sent ?o = [(0, \<lparr>command = Some ''start_calibration'', image_data = None\<rparr>),
                (0, \<lparr>command = Some ''start_distance'', image_data = None\<rparr>)]"
    unfolding measuring_open_state by (simp_all add: phase_def ws_open_def)
  have 1: "frames (step fixed_num ?tick ?c) = frames ?c"
    using frames_only_while_measuring
      [of fixed_num "[WsOpen 0, ClickCalibrate, WsMessage 0 calibration_reply]" ?tick] c
    by blast
  have 2: "step fixed_num ?tick ?m = ?m"
    using frames_only_while_measuring
      [of fixed_num to_measuring _ ?m "Some ''data:image/jpeg;base64,AA==''" 1] m
    by blast
  have "step fixed_num (IntervalTick (interval_seq ?o) (Some ''data:image/jpeg;base64,AA=='')) ?o =
        ?o\<lparr>frameCountRef := frameCountRef ?o + 1,
           sent := sent ?o @ [(length (sockets ?o) - 1,
                   \<lparr>command = None, image_data = Some ''data:image/jpeg;base64,AA==''\<rparr>)]\<rparr>"
    using frames_only_while_measuring
      [of fixed_num "to_measuring @ [WsOpen 1]" _ _ _ _ "''data:image/jpeg;base64,AA==''"] o(1-3)
    by blast
  then have 3: "sent (step fixed_num ?tick ?o) =
       [(0, \<lparr>command = Some ''start_calibration'', image_data = None\<rparr>),
        (0, \<lparr>command = Some ''start_distance'', image_data = None\<rparr>),
        (1, \<lparr>command = None, image_data = Some ''data:image/jpeg;base64,AA==''\<rparr>)]"
    using o(4-6) by simp
  from c m o(1) 1 2 3 show ?thesis by blast
qed

subsection \<open>Messages that lack a field\<close>

text \<open>
  Claim C5. Processing an inbound message keeps every stored value whose wire field the
  message does not carry: the focal length without \<open>focal_length\<close>, the processed image
  without \<open>processed_image\<close>, the displayed distance without \<open>faces\<close>, and the status
  message without both of the fields that feed it, \<open>message\<close> and \<open>error\<close>. Where
  only one of these two is absent, the status message is kept or becomes the text of the
  other one (with the prefix \<open>Error: \<close> for \<open>error\<close>).
\<close>

theorem absent_field_keeps_value:
  "(focal_length data = None \<longrightarrow>
      focalLength (step num (WsMessage i data) s) = focalLength s)
   \<and> (processed_image data = None \<longrightarrow>
      processedImage (step num (WsMessage i data) s) = processedImage s)
   \<and> (faces data = None \<longrightarrow>
      currentDistance (step num (WsMessage i data) s) = currentDistance s)
   \<and> (message data = None \<and> error data = None \<longrightarrow>
      statusMessage (step num (WsMessage i data) s) = statusMessage s)
   \<and> (message data = None \<longrightarrow>
      statusMessage (step num (WsMessage i data) s) = statusMessage s
      \<or> (\<exists>e. error data = Some e \<and> statusMessage (step num (WsMessage i data) s) = ''Error: '' @ e))
   \<and> (error data = None \<longrightarrow>
      statusMessage (step num (WsMessage i data) s) = statusMessage s
      \<or> message data = Some (statusMessage (step num (WsMessage i data) s)))"
  by (simp add: step_message onmessage_focalLength onmessage_processedImage
        onmessage_currentDistance onmessage_statusMessage new_focal_def new_image_def
        new_distance_def new_status_def new_error_def split: option.splits)

theorem absent_field_keeps_value_witness:
  "focal_length frame_result = None \<and> message frame_result = None \<and> error frame_result = None
   \<and> focalLength (step fixed_num (WsMessage 1 frame_result)
         (run fixed_num (to_measuring @ [WsOpen 1]) mount)) = 450.2
   \<and> statusMessage (step fixed_num (WsMessage 1 frame_result)
         (run fixed_num (to_measuring @ [WsOpen 1]) mount)) = measuring_prompt
   \<and> processed_image calibration_reply = None \<and> faces calibration_reply = None
   \<and> processedImage (step fixed_num (WsMessage 0 calibration_reply)
         (run fixed_num [WsOpen 0, ClickCalibrate] mount)) = None
   \<and> currentDistance (step fixed_num (WsMessage 0 calibration_reply)
         (run fixed_num [WsOpen 0, ClickCalibrate] mount)) = ''0m''"
proof -
  let ?o = "run fixed_num (to_measuring @ [WsOpen 1]) mount"
  let ?c = "run fixed_num [WsOpen 0, ClickCalibrate] mount"
  have l: "focal_length frame_result = None" "message frame_result = None"
    "error frame_result = None"
    by (simp_all add: frame_result_def)
  have r: "processed_image calibration_reply = None" "faces calibration_reply = None"
    by (simp_all add: calibration_reply_def)
  have o: "focalLength ?o = 450.2" "statusMessage ?o = measuring_prompt"
    unfolding measuring_open_state by simp_all
  have c: "processedImage ?c = None" "currentDistance ?c = ''0m''"
    unfolding calibrating_state by simp_all
  from absent_field_keeps_value [of frame_result fixed_num 1 ?o] l o
  have 1: "focalLength (step fixed_num (WsMessage 1 frame_result) ?o) = 450.2"
    "statusMessage (step fixed_num (WsMessage 1 frame_result) ?o) = measuring_prompt"
    by simp_all
  from absent_field_keeps_value [of calibration_reply fixed_num 0 ?c] r c
  have 2: "processedImage (step fixed_num (WsMessage 0 calibration_reply) ?c) = None"
    "currentDistance (step fixed_num (WsMessage 0 calibration_reply) ?c) = ''0m''"
    by simp_all
  from l r 1 2 show ?thesis by blast
qed

subsection \<open>Completion of the calibration\<close>

text \<open>
  Claim C6, as amended. An inbound message with a true \<open>success\<close> whose \<open>message\<close>
  contains \<open>calibration complete\<close> in any letter case, delivered in phase Calibrating,
  moves the phase to Calibrated: \<open>isCalibrating\<close> becomes false, \<open>isCalibrated\<close>
  becomes true and \<open>isMeasuring\<close> stays false. The focal length becomes the reported one
  when the message carries a non-zero \<open>focal_length\<close> and stays otherwise.
\<close>

theorem calibration_completes:
  assumes "phase s = Calibrating"
    and "i < length (sockets s)" and "readyState (sockets s ! i) = OPEN"
    and "success data = Some True"
    and "message data = Some t"
    and "includesJS (toLowerCaseJS t) ''calibration complete''"
  shows "phase (step num (WsMessage i data) s) = Calibrated
         \<and> isCalibrating (step num (WsMessage i data) s) = False
         \<and> isCalibrated (step num (WsMessage i data) s) = True
         \<and> isMeasuring (step num (WsMessage i data) s) = False
         \<and> focalLength (step num (WsMessage i data) s) =
             (case focal_length data of
                None \<Rightarrow> focalLength s
              | Some f \<Rightarrow> if f = 0 then focalLength s else f)"
proof -
  from assms(5,6) have mk: "marked data" by (simp add: marked_def)
  from assms(1) have nm: "\<not> isMeasuring s"
    by (simp add: phase_def split: if_splits)
  have fl: "isCalibrating (step num (WsMessage i data) s) = False"
    "isCalibrated (step num (WsMessage i data) s) = True"
    "isMeasuring (step num (WsMessage i data) s) = False"
    using assms(2-4) mk nm by (simp_all add: step_message onmessage_flags)
  then have "phase (step num (WsMessage i data) s) = Calibrated"
    by (simp add: phase_def)
  moreover have "focalLength (step num (WsMessage i data) s) =
             (case focal_length data of
                None \<Rightarrow> focalLength s
              | Some f \<Rightarrow> if f = 0 then focalLength s else f)"
    using assms(2-4) by (simp add: step_message onmessage_focalLength new_focal_def)
  ultimately show ?thesis using fl by blast
qed

theorem calibration_completes_witness:
  "phase (run fixed_num [WsOpen 0, ClickCalibrate] mount) = Calibrating
   \<and> includesJS (toLowerCaseJS ''Calibration complete'') ''calibration complete''
   \<and> phase (step fixed_num (WsMessage 0 calibration_reply)
               (run fixed_num [WsOpen 0, ClickCalibrate] mount)) = Calibrated
   \<and> isCalibrating (step fixed_num (WsMessage 0 calibration_reply)
               (run fixed_num [WsOpen 0, ClickCalibrate] mount)) = False
   \<and> focalLength (step fixed_num (WsMessage 0 calibration_reply)
               (run fixed_num [WsOpen 0, ClickCalibrate] mount)) = 450.2"
proof -
  let ?c = "run fixed_num [WsOpen 0, ClickCalibrate] mount"
  have p: "phase ?c = Calibrating" and i: "0 < length (sockets ?c)"
    and r: "readyState (sockets ?c ! 0) = OPEN"
    unfolding calibrating_state by (simp_all add: phase_def)
  have s: "success calibration_reply = Some True"
    and m: "message calibration_reply = Some ''Calibration complete''"
    and f: "focal_length calibration_reply = Some 450.2"
    by (simp_all add: calibration_reply_def)
  have k: "includesJS (toLowerCaseJS ''Calibration complete'') ''calibration complete''"
    by (simp add: toLowerCaseJS_def)
  from calibration_completes [OF p i r s m k, of fixed_num] f p k
  show ?thesis by simp
qed

text \<open>
  Claim C6 as stated fails for a message that has the marker in its status text and no
  true \<open>success\<close>: the phase stays Calibrating and the focal length is not recorded.
\<close>

theorem marker_without_success_counterexample:
  "phase (run fixed_num [WsOpen 0, ClickCalibrate] mount) = Calibrating
   \<and> message unconfirmed_reply = Some ''Calibration complete''
   \<and> includesJS (toLowerCaseJS ''Calibration complete'') ''calibration complete''
   \<and> phase (run fixed_num [WsOpen 0, ClickCalibrate, WsMessage 0 unconfirmed_reply] mount) = Calibrating
   \<and> focalLength (run fixed_num [WsOpen 0, ClickCalibrate, WsMessage 0 unconfirmed_reply] mount) = 0"
proof -
  let ?c = "run fixed_num [WsOpen 0, ClickCalibrate] mount"
  have run: "run fixed_num [WsOpen 0, ClickCalibrate, WsMessage 0 unconfirmed_reply] mount =
               step fixed_num (WsMessage 0 unconfirmed_reply) ?c"
    by simp
  have p: "phase ?c = Calibrating"
    unfolding calibrating_state by (simp add: phase_def)
  have "phase (step fixed_num (WsMessage 0 unconfirmed_reply) ?c) = Calibrating"
    "focalLength (step fixed_num (WsMessage 0 unconfirmed_reply) ?c) = 0"
    unfolding calibrating_state
    by (simp_all add: step_message phase_def onmessage_flags onmessage_focalLength
          unconfirmed_reply_def)
  moreover have "includesJS (toLowerCaseJS ''Calibration complete'') ''calibration complete''"
    by (simp add: toLowerCaseJS_def)
  moreover have "message unconfirmed_reply = Some ''Calibration complete''"
    by (simp add: unconfirmed_reply_def)
  ultimately show ?thesis using p unfolding run by blast
qed

subsection \<open>The distance display\<close>

text \<open>
  Claim C7, as amended. In phase Measuring, an inbound message with a true \<open>success\<close>
  and at least one face sets the display from the first face: to its distance followed by
  \<open>m\<close> when that distance is positive, to \<open>Calculating...\<close> when it is zero, negative
  or absent. A message without a true \<open>success\<close>, without \<open>faces\<close> or with an empty
  \<open>faces\<close> leaves the display as it was.
\<close>

theorem distance_display:
  assumes "phase (run num es mount) = Measuring"
    and "i < length (sockets (run num es mount))"
    and "readyState (sockets (run num es mount) ! i) = OPEN"
  shows "(success data = Some True \<and> faces data = Some (f # fs) \<and> distance f = Some x \<and> 0 < x \<longrightarrow>
            currentDistance (step num (WsMessage i data) (run num es mount)) = num x @ ''m'')
         \<and> (success data = Some True \<and> faces data = Some (f # fs)
              \<and> (distance f = None \<or> (\<exists>y. distance f = Some y \<and> y \<le> 0)) \<longrightarrow>
            currentDistance (step num (WsMessage i data) (run num es mount)) = ''Calculating...'')
         \<and> (success data \<noteq> Some True \<or> faces data = None \<or> faces data = Some [] \<longrightarrow>
            currentDistance (step num (WsMessage i data) (run num es mount))
              = currentDistance (run num es mount))"
proof -
  let ?r = "run num es mount"
  have inv: "session_inv ?r" by (rule inv_reachable)
  from assms(1) have "isMeasuring ?r" by (simp add: phase_Measuring)
  with open_is_current(2) [OF inv assms(2,3)] have seen: "seen_isMeasuring (sockets ?r ! i)"
    by simp
  have cur: "currentDistance (step num (WsMessage i data) ?r) =
          (if success data = Some True then new_distance num True data (currentDistance ?r)
           else currentDistance ?r)"
    using assms(2,3) seen by (simp add: step_message onmessage_currentDistance)
  show ?thesis
    unfolding cur
    by (auto simp: new_distance_def shown_distance_def)
qed

theorem distance_display_witness:
  "phase (run fixed_num (to_measuring @ [WsOpen 1]) mount) = Measuring
   \<and> currentDistance (step fixed_num (WsMessage 1 frame_result)
        (run fixed_num (to_measuring @ [WsOpen 1]) mount)) = fixed_num 1.2 @ ''m''
   \<and> currentDistance (step fixed_num (WsMessage 1 zero_result)
        (run fixed_num (to_measuring @ [WsOpen 1]) mount)) = ''Calculating...''
   \<and> currentDistance (step fixed_num (WsMessage 1 no_face_result)
        (run fixed_num (to_measuring @ [WsOpen 1]) mount)) = ''0m''"
proof -
  let ?o = "run fixed_num (to_measuring @ [WsOpen 1]) mount"
  have p: "phase ?o = Measuring" and i: "1 < length (sockets ?o)"
    and r: "readyState (sockets ?o ! 1) = OPEN" and d: "currentDistance ?o = ''0m''"
    unfolding measuring_open_state by (simp_all add: phase_def)
  have l: "success frame_result = Some True"
    "faces frame_result = Some (\<lparr>distance = Some 1.2\<rparr> # [])"
    by (simp_all add: frame_result_def)
  have z: "success zero_result = Some True"
    "faces zero_result = Some (\<lparr>distance = Some 0\<rparr> # [])"
    by (simp_all add: zero_result_def)
  have n: "faces no_face_result = Some []"
    by (simp add: no_face_result_def)
  have 1: "currentDistance (step fixed_num (WsMessage 1 frame_result) ?o) = fixed_num 1.2 @ ''m''"
    using distance_display [OF p i r, of frame_result "\<lparr>distance = Some 1.2\<rparr>" "[]" "1.2"] l
    by simp
  have 2: "currentDistance (step fixed_num (WsMessage 1 zero_result) ?o) = ''Calculating...''"
    using distance_display [OF p i r, of zero_result "\<lparr>distance = Some 0\<rparr>" "[]"] z
    by simp
  have 3: "currentDistance (step fixed_num (WsMessage 1 no_face_result) ?o) = ''0m''"
    using distance_display [OF p i r, of no_face_result] n d
    by simp
  from p 1 2 3 show ?thesis by blast
qed

text \<open>
  Claim C7 as stated fails where the display is not written at all. After \<open>1.2m\<close> has
  been shown, a successful result whose \<open>faces\<close> is empty reports no distance, and a
  result without \<open>success\<close> reports the distance 0 for its detection: the display keeps
  the stale \<open>1.2m\<close> after either.
\<close>

theorem stale_distance_counterexample:
  "phase (run fixed_num (to_measuring @ [WsOpen 1, WsMessage 1 frame_result]) mount) = Measuring
   \<and> faces no_face_result = Some []
   \<and> currentDistance
        (run fixed_num (to_measuring @ [WsOpen 1, WsMessage 1 frame_result, WsMessage 1 no_face_result]) mount)
       = ''1.2m''
   \<and> faces unflagged_zero_result = Some [\<lparr>distance = Some 0\<rparr>]
   \<and> currentDistance
        (run fixed_num (to_measuring @ [WsOpen 1, WsMessage 1 frame_result, WsMessage 1 unflagged_zero_result]) mount)
       = ''1.2m''"
proof -
  let ?o = "run fixed_num (to_measuring @ [WsOpen 1]) mount"
  let ?a = "step fixed_num (WsMessage 1 frame_result) ?o"
  have a: "run fixed_num (to_measuring @ [WsOpen 1, WsMessage 1 frame_result]) mount = ?a"
    by (simp add: run_append)
  have b: "run fixed_num (to_measuring @ [WsOpen 1, WsMessage 1 frame_result, WsMessage 1 no_face_result]) mount
             = step fixed_num (WsMessage 1 no_face_result) ?a"
    by (simp add: run_append)
  have c: "run fixed_num (to_measuring @ [WsOpen 1, WsMessage 1 frame_result, WsMessage 1 unflagged_zero_result]) mount
             = step fixed_num (WsMessage 1 unflagged_zero_result) ?a"
    by (simp add: run_append)
  have 1: "isMeasuring ?a" "currentDistance ?a = ''1.2m''"
    unfolding measuring_open_state
    by (simp_all add: step_message onmessage_currentDistance new_distance_def shown_distance_def
          frame_result_def fixed_num_def)
  have 2: "currentDistance (step fixed_num (WsMessage 1 no_face_result) ?a) = currentDistance ?a"
    by (simp add: step_message onmessage_currentDistance new_distance_def no_face_result_def)
  have 3: "currentDistance (step fixed_num (WsMessage 1 unflagged_zero_result) ?a) = currentDistance ?a"
    by (simp add: step_message onmessage_currentDistance unflagged_zero_result_def)
  have "faces no_face_result = Some []" "faces unflagged_zero_result = Some [\<lparr>distance = Some 0\<rparr>]"
    by (simp_all add: no_face_result_def unflagged_zero_result_def)
  with 1 2 3 show ?thesis
    unfolding a b c by (simp add: phase_def)
qed

subsection \<open>Errors reported by the service\<close>

text \<open>
  Claim C8, as amended. An inbound message that carries a non-empty \<open>error\<close> sets the
  status message to \<open>Error: \<close> followed by that text. The phase flags stay as they were
  unless the same message also has a true \<open>success\<close> and the calibration-complete marker
  in its \<open>message\<close>.
\<close>

theorem error_is_surfaced:
  assumes "i < length (sockets s)" and "readyState (sockets s ! i) = OPEN"
    and "error data = Some e" and "e \<noteq> []"
  shows "statusMessage (step num (WsMessage i data) s) = ''Error: '' @ e
         \<and> (\<not> (success data = Some True
                \<and> (\<exists>t. message data = Some t
                       \<and> includesJS (toLowerCaseJS t) ''calibration complete'')) \<longrightarrow>
              phase (step num (WsMessage i data) s) = phase s
              \<and> isCalibrating (step num (WsMessage i data) s) = isCalibrating s
              \<and> isCalibrated (step num (WsMessage i data) s) = isCalibrated s
              \<and> isMeasuring (step num (WsMessage i data) s) = isMeasuring s)"
proof -
  have "statusMessage (step num (WsMessage i data) s) = ''Error: '' @ e"
    using assms by (simp add: step_message onmessage_statusMessage new_error_def)
  moreover have "phase (step num (WsMessage i data) s) = phase s
              \<and> isCalibrating (step num (WsMessage i data) s) = isCalibrating s
              \<and> isCalibrated (step num (WsMessage i data) s) = isCalibrated s
              \<and> isMeasuring (step num (WsMessage i data) s) = isMeasuring s"
    if "\<not> (success data = Some True
            \<and> (\<exists>t. message data = Some t \<and> includesJS (toLowerCaseJS t) ''calibration complete''))"
  proof -
    from that have "\<not> (success data = Some True \<and> marked data)"
      by (auto simp: marked_def split: option.splits)
    then show ?thesis
      by (auto simp: step_message phase_def onmessage_flags)
  qed
  ultimately show ?thesis by blast
qed

theorem error_is_surfaced_witness:
  "error rejected_reply = None \<and> error failed_reply = Some ''low light''
   \<and> statusMessage (step fixed_num (WsMessage 0 failed_reply)
        (run fixed_num [WsOpen 0, ClickCalibrate] mount)) = ''Error: low light''
   \<and> phase (step fixed_num (WsMessage 1 error_reply)
        (run fixed_num (to_measuring @ [WsOpen 1]) mount)) = Measuring"
proof -
  let ?c = "run fixed_num [WsOpen 0, ClickCalibrate] mount"
  let ?o = "run fixed_num (to_measuring @ [WsOpen 1]) mount"
  have c: "0 < length (sockets ?c)" "readyState (sockets ?c ! 0) = OPEN"
    unfolding calibrating_state by simp_all
  have o: "1 < length (sockets ?o)" "readyState (sockets ?o ! 1) = OPEN" "phase ?o = Measuring"
    unfolding measuring_open_state by (simp_all add: phase_def)
  have e: "error failed_reply = Some ''low light''" "''low light'' \<noteq> []"
    "error error_reply = Some ''low light''"
    "\<not> (success error_reply = Some True
        \<and> (\<exists>t. message error_reply = Some t
               \<and> includesJS (toLowerCaseJS t) ''calibration complete''))"
    by (simp_all add: failed_reply_def error_reply_def)
  have r: "error rejected_reply = None"
    by (simp add: rejected_reply_def)
  from error_is_surfaced [OF c e(1,2), of fixed_num]
  have 1: "statusMessage (step fixed_num (WsMessage 0 failed_reply) ?c) = ''Error: low light''"
    by simp
  from error_is_surfaced [OF o(1,2) e(3,2), of fixed_num] e(4) o(3)
  have 2: "phase (step fixed_num (WsMessage 1 error_reply) ?o) = Measuring"
    by simp
  from r e(1) 1 2 show ?thesis by blast
qed

text \<open>
  Claim C8 as stated fails twice at one message: an error that comes with a true
  \<open>success\<close> and the marker moves the phase from Calibrating to Calibrated, and the
  status message is the error text behind the prefix \<open>Error: \<close>, not the text alone.
\<close>

theorem error_changes_phase_counterexample:
  "phase (run fixed_num [WsOpen 0, ClickCalibrate] mount) = Calibrating
   \<and> error failed_reply = Some ''low light''
   \<and> phase (run fixed_num [WsOpen 0, ClickCalibrate, WsMessage 0 failed_reply] mount) = Calibrated
   \<and> statusMessage (run fixed_num [WsOpen 0, ClickCalibrate, WsMessage 0 failed_reply] mount)
       \<noteq> ''low light''"
proof -
  let ?c = "run fixed_num [WsOpen 0, ClickCalibrate] mount"
  have run: "run fixed_num [WsOpen 0, ClickCalibrate, WsMessage 0 failed_reply] mount =
               step fixed_num (WsMessage 0 failed_reply) ?c"
    by simp
  have p: "phase ?c = Calibrating"
    unfolding calibrating_state by (simp add: phase_def)
  have "phase (step fixed_num (WsMessage 0 failed_reply) ?c) = Calibrated"
    "statusMessage (step fixed_num (WsMessage 0 failed_reply) ?c) \<noteq> ''low light''"
    unfolding calibrating_state
    by (simp_all add: step_message phase_def onmessage_flags onmessage_statusMessage
          new_status_def new_error_def marked_def toLowerCaseJS_def failed_reply_def)
  moreover have "error failed_reply = Some ''low light''"
    by (simp add: failed_reply_def)
  ultimately show ?thesis using p unfolding run by blast
qed

subsection \<open>Capture\<close>

lemma captures_unless_capture:
  "(\<exists>shot. e = ClickCapture shot) \<or> captures (step num e s) = captures s"
proof -
  have "(\<exists>shot. e = ClickCapture shot) \<or> captures (dispatch num e s) = captures s"
    by (cases e)
       (simp_all add: captures_def startCalibration_def sendFrame_def
          startMeasuringDistance_def stopMeasuringDistance_def ws_send_def set_readyState_def
          setInterval_def clearInterval_def Let_def split: option.splits)
  then show ?thesis by (simp add: step_def captures_def)
qed

lemma capture_flags:
  "isCalibrating (captureCalibration shot s) = isCalibrating s"
  "isCalibrated (captureCalibration shot s) = isCalibrated s"
  "isMeasuring (captureCalibration shot s) = isMeasuring s"
  by (simp_all add: captureCalibration_def ws_send_def split: option.splits)

text \<open>
  Claim C9. In a reachable state in phase Calibrating, a click on Capture with a
  snapshot at hand and the socket open sends exactly one message,
  \<open>{command: capture, image: snapshot}\<close>, and changes nothing else; without a snapshot or
  without an open socket it changes nothing at all. Outside phase Calibrating no event
  sends a capture message. The click leaves the phase as it was.
\<close>

theorem capture_sends_one_snapshot:
  "(phase (run num es mount) = Calibrating \<and> ws_open (run num es mount) \<and> img \<noteq> [] \<longrightarrow>
      step num (ClickCapture (Some img)) (run num es mount) =
        (run num es mount)
          \<lparr>sent := sent (run num es mount)
                     @ [(length (sockets (run num es mount)) - 1,
                         \<lparr>command = Some ''capture'', image_data = Some img\<rparr>)]\<rparr>)
   \<and> (shot = None \<or> shot = Some [] \<or> \<not> ws_open s \<longrightarrow> step num (ClickCapture shot) s = s)
   \<and> (phase (run num es mount) \<noteq> Calibrating \<longrightarrow>
        captures (step num e (run num es mount)) = captures (run num es mount))
   \<and> phase (step num (ClickCapture shot) s) = phase s"
proof -
  let ?r = "run num es mount"
  have inv: "session_inv ?r" by (rule inv_reachable)
  have a: "step num (ClickCapture (Some img)) ?r =
        ?r\<lparr>sent := sent ?r @ [(length (sockets ?r) - 1,
                                 \<lparr>command = Some ''capture'', image_data = Some img\<rparr>)]\<rparr>"
    if "phase ?r = Calibrating \<and> ws_open ?r \<and> img \<noteq> []"
  proof -
    from that inv have "isCalibrating ?r" "showCamera ?r" "ws ?r = Some (length (sockets ?r) - 1)"
      by (auto simp: phase_Calibrating session_inv_alt)
    with that show ?thesis
      by (simp add: step_def captureCalibration_def ws_send_def rerender_same)
  qed
  have b: "step num (ClickCapture shot) s = s" if "shot = None \<or> shot = Some [] \<or> \<not> ws_open s"
    using that by (auto simp: step_def captureCalibration_def rerender_same split: option.splits)
  have c: "captures (step num e ?r) = captures ?r" if "phase ?r \<noteq> Calibrating"
  proof (cases "\<exists>shot. e = ClickCapture shot")
    case True
    then obtain shot' where e: "e = ClickCapture shot'" by blast
    from that inv have "\<not> isCalibrating ?r" by (simp add: phase_Calibrating)
    with e show ?thesis by (simp add: step_def rerender_same)
  next
    case False
    with captures_unless_capture [of e num ?r] show ?thesis by blast
  qed
  have d: "phase (step num (ClickCapture shot) s) = phase s"
    by (simp add: step_def phase_def capture_flags)
  from a b c d show ?thesis by blast
qed

theorem capture_sends_one_snapshot_witness:
  "phase (run fixed_num [WsOpen 0, ClickCalibrate] mount) = Calibrating
   \<and> sent (step fixed_num (ClickCapture (Some ''data:image/jpeg;base64,AA==''))
         (run fixed_num [WsOpen 0, ClickCalibrate] mount)) =
       [(0, \<lparr>command = Some ''start_calibration'', image_data = None\<rparr>),
        (0, \<lparr>command = Some ''capture'', image_data = Some ''data:image/jpeg;base64,AA==''\<rparr>)]
   \<and> step fixed_num (ClickCapture None) (run fixed_num [WsOpen 0, ClickCalibrate] mount)
       = run fixed_num [WsOpen 0, ClickCalibrate] mount
   \<and> phase (run fixed_num (to_measuring @ [WsOpen 1]) mount) \<noteq> Calibrating
   \<and> captures (step fixed_num (ClickCapture (Some ''data:image/jpeg;base64,AA==''))
         (run fixed_num (to_measuring @ [WsOpen 1]) mount))
       = captures (run fixed_num (to_measuring @ [WsOpen 1]) mount)"
proof -
  let ?c = "run fixed_num [WsOpen 0, ClickCalibrate] mount"
  let ?o = "run fixed_num (to_measuring @ [WsOpen 1]) mount"
  let ?img = "''data:image/jpeg;base64,AA==''"
  have c: "phase ?c = Calibrating" "ws_open ?c" "length (sockets ?c) = 1"
    "sent ?c = [(0, \<lparr>command = Some ''start_calibration'', image_data = None\<rparr>)]"
    unfolding calibrating_state by (simp_all add: phase_def ws_open_def)
  have o: "phase ?o \<noteq> Calibrating"
    unfolding measuring_open_state by (simp add: phase_def)
  have "step fixed_num (ClickCapture (Some ?img)) ?c =
          ?c\<lparr>sent := sent ?c @ [(length (sockets ?c) - 1,
                                   \<lparr>command = Some ''capture'', image_data = Some ?img\<rparr>)]\<rparr>"
    using capture_sends_one_snapshot [of fixed_num "[WsOpen 0, ClickCalibrate]" ?img] c(1,2)
    by blast
  then have 1: "sent (step fixed_num (ClickCapture (Some ?img)) ?c) =
       [(0, \<lparr>command = Some ''start_calibration'', image_data = None\<rparr>),
        (0, \<lparr>command = Some ''capture'', image_data = Some ?img\<rparr>)]"
    using c(3,4) by simp
  have 2: "step fixed_num (ClickCapture None) ?c = ?c"
    using capture_sends_one_snapshot [of fixed_num _ _ None ?c] by blast
  have 3: "captures (step fixed_num (ClickCapture (Some ?img)) ?o) = captures ?o"
    using capture_sends_one_snapshot
      [of fixed_num "to_measuring @ [WsOpen 1]" _ _ _ "ClickCapture (Some ?img)"] o
    by blast
  from c(1) o 1 2 3 show ?thesis by blast
qed

subsection \<open>Messages without success\<close>

text \<open>
  Claim C10. An inbound message whose \<open>success\<close> is absent or false changes nothing but
  the status message, whatever else it carries: the state after it is the state before
  it with \<open>statusMessage\<close> replaced, and the new status is \<open>Error: \<close> followed by the
  message's non-empty \<open>error\<close>, else the message's non-empty \<open>message\<close>, else the old
  status.
\<close>

theorem unsuccessful_message_only_sets_status:
  assumes "success data \<noteq> Some True"
  shows "step num (WsMessage i data) s =
           s\<lparr>statusMessage := statusMessage (step num (WsMessage i data) s)\<rparr>
         \<and> processedImage (step num (WsMessage i data) s) = processedImage s
         \<and> focalLength (step num (WsMessage i data) s) = focalLength s
         \<and> isCalibrating (step num (WsMessage i data) s) = isCalibrating s
         \<and> isCalibrated (step num (WsMessage i data) s) = isCalibrated s
         \<and> isMeasuring (step num (WsMessage i data) s) = isMeasuring s
         \<and> currentDistance (step num (WsMessage i data) s) = currentDistance s
         \<and> statusMessage (step num (WsMessage i data) s) \<in>
             {statusMessage s} \<union> {t. message data = Some t} \<union> {''Error: '' @ e |e. error data = Some e}"
proof -
  have eq: "step num (WsMessage i data) s =
           s\<lparr>statusMessage := statusMessage (step num (WsMessage i data) s)\<rparr>"
    using assms by (simp add: step_message onmessage_unsuccessful)
  have st: "statusMessage (step num (WsMessage i data) s) \<in>
             {statusMessage s} \<union> {t. message data = Some t} \<union> {''Error: '' @ e |e. error data = Some e}"
    by (simp add: step_message onmessage_statusMessage new_status_def new_error_def
          split: option.splits)
  have "processedImage (step num (WsMessage i data) s) = processedImage s"
    "focalLength (step num (WsMessage i data) s) = focalLength s"
    "isCalibrating (step num (WsMessage i data) s) = isCalibrating s"
    "isCalibrated (step num (WsMessage i data) s) = isCalibrated s"
    "isMeasuring (step num (WsMessage i data) s) = isMeasuring s"
    "currentDistance (step num (WsMessage i data) s) = currentDistance s"
    using assms
    by (simp_all add: step_message onmessage_processedImage onmessage_focalLength
          onmessage_flags onmessage_currentDistance)
  with eq st show ?thesis by blast
qed

theorem unsuccessful_message_only_sets_status_witness:
  "success rejected_reply \<noteq> Some True
   \<and> step fixed_num (WsMessage 0 rejected_reply) (run fixed_num [WsOpen 0, ClickCalibrate] mount) =
       (run fixed_num [WsOpen 0, ClickCalibrate] mount)\<lparr>statusMessage := ''Calibration complete''\<rparr>"
proof -
  let ?c = "run fixed_num [WsOpen 0, ClickCalibrate] mount"
  have f: "success rejected_reply \<noteq> Some True"
    by (simp add: rejected_reply_def)
  have "statusMessage (step fixed_num (WsMessage 0 rejected_reply) ?c) = ''Calibration complete''"
    unfolding calibrating_state
    by (simp add: step_message onmessage_statusMessage new_status_def new_error_def
          rejected_reply_def)
  with unsuccessful_message_only_sets_status [OF f, of fixed_num 0 ?c] f
  show ?thesis by simp
qed

end
